theory Spec2Isabelle
  imports Complex_Main "HOL-Library.Char_ord" "HOL-Library.List_Lexorder"
begin

section \<open>The toxicity detector of the moderation service\<close>

text \<open>
  A shallow embedding of \<^verbatim>\<open>src/services/toxicity_detector.py\<close> (class
  \<^verbatim>\<open>ToxicityDetector\<close>). Conventions of the model:
  \<^item> A Python float is the rational number it holds (\<open>rat\<close>). The confidence of the
    classifier path is computed as the source does, in double arithmetic: every
    subtraction and multiplication is rounded by \<open>fl\<close>, and a decimal literal that is not
    a double stands for \<open>fl\<close> of it. The sums and the mean of the pattern path are taken
    exactly. \<^verbatim>\<open>round(x, 3)\<close> is read as the decimal it denotes.
  \<^item> Python strings are \<open>string\<close>; a \<open>char\<close> stands for a code point below 256.
  \<^item> An exception is a value \<open>Inl e\<close> of \<open>error + 'a\<close>.
  \<^item> The tokenizer, the model and \<^verbatim>\<open>expit\<close> form one opaque parameter \<open>infer\<close>: it takes
    the cleaned text and the maximal length and returns the probability, or raises.
  \<^item> Private methods lose their leading underscore.
\<close>

subsection \<open>Values, errors and the verdict\<close>

datatype error = ValueError | AttributeError | TypeError | KeyError | InferenceError

datatype pyval = PyNone | PyBool bool | PyInt int | PyFloat rat | PyStr string | PyList "pyval list"

fun truthy :: "pyval \<Rightarrow> bool" where
  "truthy PyNone = False"
| "truthy (PyBool b) = b"
| "truthy (PyInt n) = (n \<noteq> 0)"
| "truthy (PyFloat x) = (x \<noteq> 0)"
| "truthy (PyStr s) = (s \<noteq> [])"
| "truthy (PyList xs) = (xs \<noteq> [])"

fun is_str :: "pyval \<Rightarrow> bool" where
  "is_str (PyStr s) = True"
| "is_str v = False"

fun str_of :: "pyval \<Rightarrow> string" where
  "str_of (PyStr s) = s"
| "str_of v = []"

record verdict =
  is_toxic :: bool
  toxicity_score :: rat
  confidence :: rat
  categories :: "string list"
  content_length :: nat
  timestamp :: string
  detector_version :: string
  model_used :: string
  threshold_used :: "rat option"
  raw_score :: "rat option"

datatype event = Enter_ml | Enter_rule_based | Log_error string | Log_info string | Log_debug string

subsection \<open>Rounding\<close>

text \<open>\<^verbatim>\<open>round(x, n)\<close>: to the nearest multiple of \<open>10\<^sup>-\<^sup>n\<close>, a tie going to the even one.\<close>

definition round_half_even :: "rat \<Rightarrow> int" where
  "round_half_even q =
     (let f = \<lfloor>q\<rfloor>; r = q - of_int f
      in if r < 1 / 2 then f else if 1 / 2 < r then f + 1 else if even f then f else f + 1)"

definition py_round :: "rat \<Rightarrow> nat \<Rightarrow> rat" where
  "py_round x n = of_int (round_half_even (x * 10 ^ n)) / 10 ^ n"

subsection \<open>Double arithmetic\<close>

text \<open>
  \<open>fl x\<close> is the double nearest to \<open>x\<close>, a tie going to the even significand
  (IEEE 754 binary64, round to nearest even). \<open>binade a\<close> is the exponent \<open>e\<close> with
  \<open>2\<^sup>e \<le> a < 2\<^sup>e\<^sup>+\<^sup>1\<close>, found from the bit lengths of numerator and denominator; the
  significand has 53 bits, and below \<open>2\<^sup>-\<^sup>1\<^sup>0\<^sup>2\<^sup>2\<close> the spacing stays \<open>2\<^sup>-\<^sup>1\<^sup>0\<^sup>7\<^sup>4\<close>. There is no
  largest double here: a value of \<open>2\<^sup>1\<^sup>0\<^sup>2\<^sup>4\<close> or more stands for the infinity of the
  source, and the only thing the source does with one is to take \<^verbatim>\<open>min(1.0, _)\<close>.
\<close>

fun bit_length :: "nat \<Rightarrow> nat" where
  "bit_length n = (if n = 0 then 0 else Suc (bit_length (n div 2)))"

definition binade :: "rat \<Rightarrow> int" where
  "binade a =
     (case quotient_of a of
        (n, d) \<Rightarrow>
          (let k = int (bit_length (nat n)) - int (bit_length (nat d))
           in if 2 powi k \<le> a then k else k - 1))"

definition fl :: "rat \<Rightarrow> rat" where
  "fl x =
     (if x = 0 then 0
      else (let a = \<bar>x\<bar>; e = max (binade a) (- 1022); q = 2 powi (e - 52)
            in sgn x * (of_int (round_half_even (a / q)) * q)))"

subsection \<open>Character classes\<close>

definition is_space :: "char \<Rightarrow> bool" where
  "is_space c = (let n = (of_char c :: nat) in (9 \<le> n \<and> n \<le> 13) \<or> (28 \<le> n \<and> n \<le> 32) \<or> n = 133 \<or> n = 160)"

definition lower_char :: "char \<Rightarrow> char" where
  "lower_char c =
     (let n = (of_char c :: nat)
      in if (65 \<le> n \<and> n \<le> 90) \<or> (192 \<le> n \<and> n \<le> 222 \<and> n \<noteq> 215) then char_of (n + 32) else c)"

definition lower :: "string \<Rightarrow> string" where
  "lower s = map lower_char s"

definition is_word :: "char \<Rightarrow> bool" where
  "is_word c =
     (let n = (of_char c :: nat)
      in (48 \<le> n \<and> n \<le> 57) \<or> (65 \<le> n \<and> n \<le> 90) \<or> n = 95 \<or> (97 \<le> n \<and> n \<le> 122)
         \<or> n = 170 \<or> n = 178 \<or> n = 179 \<or> n = 181 \<or> n = 185 \<or> n = 186
         \<or> (188 \<le> n \<and> n \<le> 190) \<or> (192 \<le> n \<and> n \<noteq> 215 \<and> n \<noteq> 247))"

definition is_lower_alnum :: "char \<Rightarrow> bool" where
  "is_lower_alnum c =
     (let n = (of_char c :: nat) in (48 \<le> n \<and> n \<le> 57) \<or> (97 \<le> n \<and> n \<le> 122))"

subsection \<open>Text normalisation\<close>

text \<open>
  \<^verbatim>\<open>re.sub(r'\s+', ' ', s)\<close>: every maximal run of whitespace becomes one space
  (\<open>in_run\<close> says that the character before was whitespace).
\<close>

fun collapse_from :: "bool \<Rightarrow> string \<Rightarrow> string" where
  "collapse_from in_run [] = []"
| "collapse_from in_run (c # cs) =
     (if is_space c then (if in_run then collapse_from True cs else CHR '' '' # collapse_from True cs)
      else c # collapse_from False cs)"

definition collapse_ws :: "string \<Rightarrow> string" where
  "collapse_ws s = collapse_from False s"

definition strip :: "string \<Rightarrow> string" where
  "strip s = rev (dropWhile is_space (rev (dropWhile is_space s)))"

definition subst_class :: "char list \<Rightarrow> char \<Rightarrow> string \<Rightarrow> string" where
  "subst_class cls r s = map (\<lambda>c. if c \<in> set cls then r else c) s"

definition clean_content :: "string \<Rightarrow> string" where
  "clean_content content =
     (let clean = lower content;
          clean = strip (collapse_ws clean);
          clean = subst_class ''4@'' CHR ''a'' clean;
          clean = subst_class ''3'' CHR ''e'' clean;
          clean = subst_class ''1!'' CHR ''i'' clean;
          clean = subst_class ''0'' CHR ''o'' clean;
          clean = subst_class ''5$'' CHR ''s'' clean
      in filter (\<lambda>c. is_lower_alnum c \<or> is_space c) clean)"

definition ml_keep :: "char \<Rightarrow> bool" where
  "ml_keep c = (is_word c \<or> is_space c \<or> c \<in> set ''.!?,;:-'' \<or> of_char c = (39::nat) \<or> of_char c = (34::nat))"

definition clean_content_for_ml :: "string \<Rightarrow> string" where
  "clean_content_for_ml content =
     (let clean = strip (collapse_ws content);
          clean = map (\<lambda>c. if ml_keep c then c else CHR '' '') clean
      in if length clean > 512 then take 512 clean else clean)"

subsection \<open>The regular expressions\<close>

text \<open>
  The six patterns use a word boundary, a group of literal alternatives and a greedy
  \<^verbatim>\<open>.*\<close> only. \<open>ends p s i\<close> lists, in the order in which the backtracking matcher
  finds them, the ends of the matches of \<open>p\<close> in \<open>s\<close> that start at \<open>i\<close>, each with the
  texts its groups captured; the matcher returns the first.
\<close>

datatype atom = Word_boundary | Group "string list" | Dot_star

type_synonym pattern = "atom list"

definition word_at :: "string \<Rightarrow> nat \<Rightarrow> bool" where
  "word_at s i = (i < length s \<and> is_word (s ! i))"

definition word_boundary :: "string \<Rightarrow> nat \<Rightarrow> bool" where
  "word_boundary s i = ((0 < i \<and> word_at s (i - 1)) \<noteq> word_at s i)"

text \<open>A literal under \<^verbatim>\<open>re.IGNORECASE\<close>; the literals of the patterns are lower case.\<close>

definition literal_at :: "string \<Rightarrow> nat \<Rightarrow> string \<Rightarrow> bool" where
  "literal_at s i w = (lower (take (length w) (drop i s)) = w)"

text \<open>\<^verbatim>\<open>.\<close> matches any character but a newline.\<close>

definition dot_limit :: "string \<Rightarrow> nat \<Rightarrow> nat" where
  "dot_limit s i = i + length (takeWhile (\<lambda>c. c \<noteq> CHR 0x0A) (drop i s))"

fun ends :: "pattern \<Rightarrow> string \<Rightarrow> nat \<Rightarrow> (nat \<times> string list) list" where
  "ends [] s i = [(i, [])]"
| "ends (Word_boundary # p) s i = (if word_boundary s i then ends p s i else [])"
| "ends (Group ws # p) s i =
     concat (map (\<lambda>w. if literal_at s i w
                       then map (\<lambda>(e, gs). (e, take (length w) (drop i s) # gs)) (ends p s (i + length w))
                       else []) ws)"
| "ends (Dot_star # p) s i = concat (map (\<lambda>j. ends p s j) (rev [i ..< Suc (dot_limit s i)]))"

text \<open>
  \<^verbatim>\<open>pattern.findall(content)\<close>: the leftmost match, then the leftmost match after its
  end, and so on; each match yields its captured groups. (No pattern of the detector
  matches the empty string; an empty match would move the search on by one.)
\<close>

function findall_from :: "pattern \<Rightarrow> string \<Rightarrow> nat \<Rightarrow> string list list" where
  "findall_from p s pos =
     (if length s < pos then []
      else case ends p s pos of
             [] \<Rightarrow> findall_from p s (Suc pos)
           | (e, gs) # _ \<Rightarrow> gs # findall_from p s (if pos < e then e else Suc pos))"
  by pat_completeness auto
termination
  by (relation "measure (\<lambda>(p, s, pos). Suc (length s) - pos)") auto

definition findall :: "pattern \<Rightarrow> string \<Rightarrow> string list list" where
  "findall p s = findall_from p s 0"

definition toxic_patterns :: "pattern list" where
  "toxic_patterns =
     [[Word_boundary, Group [''fuck'', ''shit'', ''damn'', ''bitch'', ''asshole'', ''bastard''], Word_boundary],
      [Word_boundary, Group [''nigger'', ''faggot'', ''retard'', ''cunt''], Word_boundary],
      [Word_boundary, Group [''kill yourself'', ''kys'', ''die''], Word_boundary],
      [Word_boundary, Group [''hate'', ''despise''], Dot_star, Group [''you'', ''him'', ''her'', ''them''], Word_boundary],
      [Word_boundary, Group [''stupid'', ''idiot'', ''moron'', ''dumb''], Dot_star,
         Group [''person'', ''people'', ''you''], Word_boundary],
      [Word_boundary, Group [''spam'', ''troll'', ''harassment''], Word_boundary]]"

subsection \<open>The detector and its construction\<close>

datatype category_table =
  Ml_categories "(string \<times> rat) list"
| Rule_categories "(string \<times> nat list) list"

text \<open>An attribute that was never assigned is \<open>None\<close>; reading it raises \<open>AttributeError\<close>.\<close>

record detector =
  use_ml_model :: bool
  compiled_patterns :: "pattern list option"
  toxicity_categories :: "category_table option"
  severity_weights :: "(string \<times> rat) list option"
  optimal_threshold :: "rat option"
  max_length :: "nat option"
  model_name_loaded :: "string option"

text \<open>
  What loading the model gives when it does not raise: the threshold, the maximal length
  and the name, each assigned only on the local-directory branch (\<open>None\<close> on the branch
  that loads from the hub).
\<close>

record loaded =
  loaded_threshold :: "rat option"
  loaded_max_length :: "nat option"
  loaded_name :: "string option"

record env =
  transformers_available :: bool
  load_model :: "error + loaded"

definition blank :: detector where
  "blank = \<lparr>use_ml_model = False, compiled_patterns = None, toxicity_categories = None,
            severity_weights = None, optimal_threshold = None, max_length = None,
            model_name_loaded = None\<rparr>"

text \<open>
  The two tables that \<^verbatim>\<open>_initialize_rule_based\<close> assigns, as the source has them. The
  six patterns have the indices 0 to 5: index 6 belongs to no pattern, and pattern 5
  (spam, troll, harassment) lies in the index list of the category harassment.
\<close>

definition rule_categories :: "(string \<times> nat list) list" where
  "rule_categories =
     [(''profanity'', [0, 1]), (''hate_speech'', [2, 3]),
      (''harassment'', [4, 5]), (''toxic_behavior'', [6])]"

definition rule_weights :: "(string \<times> rat) list" where
  "rule_weights =
     [(''profanity'', 3 / 10), (''hate_speech'', 9 / 10),
      (''harassment'', 7 / 10), (''toxic_behavior'', 5 / 10)]"

definition initialize_rule_based :: "detector \<Rightarrow> detector" where
  "initialize_rule_based self =
     self\<lparr>compiled_patterns := Some toxic_patterns,
          toxicity_categories := Some (Rule_categories rule_categories),
          severity_weights := Some rule_weights\<rparr>"

text \<open>
  \<^verbatim>\<open>_initialize_ml_model\<close>: the whole body is inside \<^verbatim>\<open>try\<close>. When loading succeeds
  the attributes of the classifier mode are assigned, and the pattern tables are not;
  when anything raises, \<^verbatim>\<open>use_ml_model\<close> is cleared and the pattern mode is initialised.
  The tokenizer and the model are not fields here: they are the parameter \<open>infer\<close> of a
  call.
\<close>

definition initialize_ml_model :: "env \<Rightarrow> detector \<Rightarrow> detector" where
  "initialize_ml_model e self =
     (case load_model e of
        Inr l \<Rightarrow>
          self\<lparr>optimal_threshold := loaded_threshold l,
               max_length := loaded_max_length l,
               model_name_loaded := loaded_name l,
               toxicity_categories := Some (Ml_categories
                 [(''general_toxicity'', 5 / 10), (''severe_toxicity'', 7 / 10), (''obscene'', 6 / 10),
                  (''threat'', 8 / 10), (''insult'', 6 / 10), (''identity_attack'', 7 / 10)])\<rparr>
      | Inl exn \<Rightarrow> initialize_rule_based (self\<lparr>use_ml_model := False\<rparr>))"

definition init :: "env \<Rightarrow> bool \<Rightarrow> detector" where
  "init e use_ml =
     (let self = blank\<lparr>use_ml_model := (use_ml \<and> transformers_available e)\<rparr>
      in if use_ml_model self then initialize_ml_model e self else initialize_rule_based self)"

subsection \<open>The pattern path\<close>

text \<open>
  A match is the tuple \<^verbatim>\<open>(match, i)\<close>: the captured groups and the index of the pattern.
  The scoring reads the index only.
\<close>

type_synonym match = "string list \<times> nat"

definition find_toxic_patterns :: "detector \<Rightarrow> string \<Rightarrow> error + match list" where
  "find_toxic_patterns self content =
     (case compiled_patterns self of
        None \<Rightarrow> Inl AttributeError
      | Some ps \<Rightarrow>
          Inr (concat (map (\<lambda>(i, pattern). map (\<lambda>m. (m, i)) (findall pattern content))
                           (List.enumerate 0 ps))))"

text \<open>
  \<^verbatim>\<open>category_scores\<close> is a dictionary in insertion order, \<^verbatim>\<open>identified_categories\<close> a
  set, kept as a list without repetition.
\<close>

fun dict_add :: "string \<Rightarrow> rat \<Rightarrow> (string \<times> rat) list \<Rightarrow> (string \<times> rat) list" where
  "dict_add k w [] = [(k, 0 + w)]"
| "dict_add k w ((k', v) # kvs) =
     (if k = k' then (k', v + w) # kvs else (k', v) # dict_add k w kvs)"

definition set_add :: "string \<Rightarrow> string list \<Rightarrow> string list" where
  "set_add c cs = (if c \<in> set cs then cs else cs @ [c])"

type_synonym tally = "(string \<times> rat) list \<times> string list"

text \<open>The inner loop, over the items of \<^verbatim>\<open>self.toxicity_categories\<close>, for one match.\<close>

fun score_categories ::
  "(string \<times> nat list) list \<Rightarrow> (string \<times> rat) list option \<Rightarrow> nat \<Rightarrow> tally \<Rightarrow> error + tally" where
  "score_categories [] weights pattern_index st = Inr st"
| "score_categories ((category, pattern_indices) # rest) weights pattern_index (category_scores, identified) =
     (if pattern_index \<in> set pattern_indices
      then (case weights of
              None \<Rightarrow> Inl AttributeError
            | Some ws \<Rightarrow>
                (case map_of ws category of
                   None \<Rightarrow> Inl KeyError
                 | Some w \<Rightarrow>
                     score_categories rest weights pattern_index
                       (dict_add category w category_scores, set_add category identified)))
      else score_categories rest weights pattern_index (category_scores, identified))"

text \<open>The outer loop, over the matches.\<close>

fun score_matches ::
  "(string \<times> nat list) list \<Rightarrow> (string \<times> rat) list option \<Rightarrow> match list \<Rightarrow> tally \<Rightarrow> error + tally" where
  "score_matches cats weights [] st = Inr st"
| "score_matches cats weights ((m, pattern_index) # ms) st =
     (case score_categories cats weights pattern_index st of
        Inl exn \<Rightarrow> Inl exn
      | Inr st' \<Rightarrow> score_matches cats weights ms st')"

text \<open>
  With the table of the classifier mode the membership test
  \<^verbatim>\<open>pattern_index in pattern_indices\<close> has a float on its right and raises \<open>TypeError\<close>.
\<close>

definition calculate_toxicity_score :: "detector \<Rightarrow> match list \<Rightarrow> error + rat \<times> string list" where
  "calculate_toxicity_score self matches =
     (if matches = [] then Inr (0, [])
      else case toxicity_categories self of
             None \<Rightarrow> Inl AttributeError
           | Some (Ml_categories t) \<Rightarrow> (if t = [] then Inr (0, []) else Inl TypeError)
           | Some (Rule_categories cats) \<Rightarrow>
               (case score_matches cats (severity_weights self) matches ([], []) of
                  Inl exn \<Rightarrow> Inl exn
                | Inr (category_scores, identified) \<Rightarrow>
                    Inr (if category_scores \<noteq> []
                         then min 1 (sum_list (map snd category_scores) / of_nat (length category_scores))
                         else 0,
                         sort identified)))"

text \<open>
  The three methods of a call return the result (the verdict or the exception that
  leaves the method), the events of the call and the detector object as the method
  leaves it. No statement of the three assigns an attribute, so each branch returns
  \<open>self\<close>; the helper methods only read it.
\<close>

definition check_toxicity_rule_based ::
  "detector \<Rightarrow> string \<Rightarrow> string \<Rightarrow> (error + verdict) \<times> event list \<times> detector" where
  "check_toxicity_rule_based self now content =
     (let clean = clean_content content
      in ((case find_toxic_patterns self clean of
            Inl exn \<Rightarrow> Inl exn
          | Inr matches \<Rightarrow>
              (case calculate_toxicity_score self matches of
                 Inl exn \<Rightarrow> Inl exn
               | Inr (score, cats) \<Rightarrow>
                   Inr \<lparr>is_toxic = (1 / 2 < score),
                        toxicity_score = py_round score 3,
                        confidence = py_round (min (9 / 10) (3 / 10 + of_nat (length matches) * (2 / 10))) 3,
                        categories = cats,
                        content_length = length content,
                        timestamp = now,
                        detector_version = ''1.0.0-rule-based'',
                        model_used = ''rule-based-patterns'',
                        threshold_used = None,
                        raw_score = None\<rparr>)),
          [Enter_rule_based], self))"

subsection \<open>The classifier path\<close>

fun contains :: "string \<Rightarrow> string \<Rightarrow> bool" where
  "contains [] w = (w = [])"
| "contains (c # cs) w = (take (length w) (c # cs) = w \<or> contains cs w)"

definition analyze_toxicity_categories_ml :: "string \<Rightarrow> rat \<Rightarrow> string list" where
  "analyze_toxicity_categories_ml content score =
     (let content_lower = lower content
      in if 3 / 10 < score
         then (let cats = [];
                   cats = (if \<exists>w \<in> set [''fuck'', ''shit'', ''damn'', ''bitch'', ''asshole''].
                                contains content_lower w
                           then cats @ [''profanity''] else cats);
                   cats = (if \<exists>w \<in> set [''hate'', ''kill'', ''die'', ''murder'']. contains content_lower w
                           then cats @ [''hate_speech''] else cats);
                   cats = (if \<exists>w \<in> set [''stupid'', ''idiot'', ''moron'', ''loser'', ''pathetic''].
                                contains content_lower w
                           then cats @ [''harassment''] else cats);
                   cats = (if \<exists>w \<in> set [''kill you'', ''hurt you'', ''destroy you'', ''eliminate''].
                                contains content_lower w
                           then cats @ [''threat''] else cats)
               in if cats = [] \<and> 6 / 10 < score then cats @ [''general_toxicity''] else cats)
         else [])"

text \<open>
  Lines 202 to 212: the confidence, from the clamped score and the threshold, in double
  arithmetic. \<^verbatim>\<open>abs\<close>, \<^verbatim>\<open>min\<close> and \<^verbatim>\<open>max\<close> are exact; 0.5, 1.0 and 2 are doubles;
  0.1, 0.9 and 0.85 are not, and the literals denote \<open>fl\<close> of them.
\<close>

definition ml_confidence :: "rat \<Rightarrow> rat \<Rightarrow> rat" where
  "ml_confidence score threshold =
     (let threshold_distance = \<bar>fl (score - threshold)\<bar>;
          c = min 1 (max (fl (threshold_distance * 2)) 0);
          c = max c (fl (1 - fl (\<bar>fl (1 / 2 - score)\<bar> * 2)));
          c = (if score \<le> fl (1 / 10) \<or> fl (9 / 10) \<le> score then max c (fl (85 / 100)) else c)
      in min 1 c)"

type_synonym inference = "string \<Rightarrow> nat \<Rightarrow> error + rat"

definition check_toxicity_ml ::
  "detector \<Rightarrow> inference \<Rightarrow> string \<Rightarrow> string \<Rightarrow> (error + verdict) \<times> event list \<times> detector" where
  "check_toxicity_ml self infer now content =
     (let clean = clean_content_for_ml content
      in case infer clean (case max_length self of None \<Rightarrow> 512 | Some n \<Rightarrow> n) of
           Inl exn \<Rightarrow>
             (case check_toxicity_rule_based self now content of
                (r, tr, self') \<Rightarrow>
                  (r, [Enter_ml, Log_error ''ML toxicity detection failed'',
                       Log_info ''Falling back to rule-based detection for this request''] @ tr,
                   self'))
         | Inr p \<Rightarrow>
             (let score = max 0 (min 1 p);
                  threshold = (case optimal_threshold self of None \<Rightarrow> 1 / 2 | Some t \<Rightarrow> t)
              in (Inr \<lparr>is_toxic = (threshold \<le> score),
                       toxicity_score = py_round score 3,
                       confidence = py_round (ml_confidence score threshold) 3,
                       categories = analyze_toxicity_categories_ml clean score,
                       content_length = length content,
                       timestamp = now,
                       detector_version = ''2.0.5-ml-fast'',
                       model_used = (case model_name_loaded self of
                                       None \<Rightarrow> ''toxicity-model-fast'' | Some n \<Rightarrow> n),
                       threshold_used = Some threshold,
                       raw_score = Some (py_round score 4)\<rparr>,
                  [Enter_ml, Log_debug ''Using toxicity threshold''], self)))"

subsection \<open>The entry point\<close>

definition check_toxicity ::
  "detector \<Rightarrow> inference \<Rightarrow> string \<Rightarrow> pyval \<Rightarrow> (error + verdict) \<times> event list \<times> detector" where
  "check_toxicity self infer now content =
     (if \<not> truthy content \<or> \<not> is_str content then (Inl ValueError, [], self)
      else if use_ml_model self then check_toxicity_ml self infer now (str_of content)
      else check_toxicity_rule_based self now (str_of content))"

text \<open>
  A call on the detector object gives the result with its events, and the object as
  \<^verbatim>\<open>check_toxicity\<close> leaves it, on which the next call is made. \<open>run\<close> makes a sequence
  of calls, each with the behaviour of the model at that call.
\<close>

type_synonym call = "inference \<times> string \<times> pyval"

definition step :: "detector \<Rightarrow> call \<Rightarrow> ((error + verdict) \<times> event list) \<times> detector" where
  "step self c =
     (case c of
        (infer, now, content) \<Rightarrow>
          (case check_toxicity self infer now content of (r, tr, self') \<Rightarrow> ((r, tr), self')))"

fun run :: "detector \<Rightarrow> call list \<Rightarrow> ((error + verdict) \<times> event list) list \<times> detector" where
  "run self [] = ([], self)"
| "run self (c # cs) =
     (case step self c of (r, self') \<Rightarrow> (case run self' cs of (rs, self'') \<Rightarrow> (r # rs, self'')))"

subsection \<open>Detectors and inferences used as examples\<close>

text \<open>
  The detector in pattern mode: what the constructor yields when the classifier is not
  requested, not available or fails to load (see \<open>init_pattern\<close> below).
\<close>

definition pattern_detector :: detector where
  "pattern_detector = initialize_rule_based blank"

definition always_fails :: inference where
  "always_fails clean n = Inl InferenceError"

definition always_returns :: "rat \<Rightarrow> inference" where
  "always_returns p clean n = Inr p"

definition hub_env :: env where
  "hub_env = \<lparr>transformers_available = True,
              load_model = Inr \<lparr>loaded_threshold = None, loaded_max_length = None, loaded_name = None\<rparr>\<rparr>"

subsection \<open>The pattern score in the words of the specification\<close>

text \<open>
  A pattern category is a named group of patterns with a severity weight. Every match
  of a pattern of the group adds the weight once; the score is the mean of the
  accumulated weights of the categories that matched, at most 1; with no matched
  category it is 0.
\<close>

definition pattern_categories :: "(string \<times> nat list \<times> rat) list" where
  "pattern_categories =
     [(''profanity'', [0, 1], 3 / 10), (''hate_speech'', [2, 3], 9 / 10),
      (''harassment'', [4, 5], 7 / 10), (''toxic_behavior'', [6], 5 / 10)]"

definition occurrences :: "nat list \<Rightarrow> match list \<Rightarrow> nat" where
  "occurrences idxs ms = length (filter (\<lambda>m. snd m \<in> set idxs) ms)"

definition matched :: "match list \<Rightarrow> (string \<times> nat list \<times> rat) list" where
  "matched ms = filter (\<lambda>(c, idxs, w). 0 < occurrences idxs ms) pattern_categories"

definition accumulated :: "match list \<Rightarrow> string \<times> nat list \<times> rat \<Rightarrow> rat" where
  "accumulated ms = (\<lambda>(c, idxs, w). w * of_nat (occurrences idxs ms))"

definition mean_score :: "match list \<Rightarrow> rat" where
  "mean_score ms =
     (if matched ms = [] then 0
      else min 1 (sum_list (map (accumulated ms) (matched ms)) / of_nat (length (matched ms))))"

definition matched_names :: "match list \<Rightarrow> string list" where
  "matched_names ms = sort (map fst (matched ms))"

subsection \<open>Views of the tally used in the proofs\<close>

text \<open>
  The category whose index list holds a pattern index, the weight of a category, the
  effect of one match on the tally, the value a dictionary holds for a key, and the
  number of matches that fall into a category.
\<close>

definition category_of_pattern :: "nat \<Rightarrow> string option" where
  "category_of_pattern i =
     (if i \<le> 1 then Some ''profanity'' else if i \<le> 3 then Some ''hate_speech''
      else if i \<le> 5 then Some ''harassment'' else if i = 6 then Some ''toxic_behavior'' else None)"

definition weight_of :: "string \<Rightarrow> rat" where
  "weight_of c = (case map_of rule_weights c of None \<Rightarrow> 0 | Some w \<Rightarrow> w)"

definition bump :: "tally \<Rightarrow> match \<Rightarrow> tally" where
  "bump st m =
     (case category_of_pattern (snd m) of
        None \<Rightarrow> st
      | Some c \<Rightarrow> (dict_add c (weight_of c) (fst st), set_add c (snd st)))"

definition val :: "(string \<times> rat) list \<Rightarrow> string \<Rightarrow> rat" where
  "val d k = (case map_of d k of None \<Rightarrow> 0 | Some v \<Rightarrow> v)"

definition hits :: "string \<Rightarrow> match list \<Rightarrow> nat" where
  "hits c ms = length (filter (\<lambda>m. category_of_pattern (snd m) = Some c) ms)"

definition weighted_total :: "match list \<Rightarrow> nat" where
  "weighted_total ms = 3 * occurrences [0, 1] ms + 9 * occurrences [2, 3] ms
                       + 7 * occurrences [4, 5] ms + 5 * occurrences [6] ms"

definition matched_count :: "match list \<Rightarrow> nat" where
  "matched_count ms =
     (if 0 < occurrences [0, 1] ms then 1 else 0) + (if 0 < occurrences [2, 3] ms then 1 else 0)
     + (if 0 < occurrences [4, 5] ms then 1 else 0) + (if 0 < occurrences [6] ms then 1 else 0)"

text \<open>An environment in which the library is there and loading the model raises.\<close>

definition broken_env :: env where
  "broken_env = \<lparr>transformers_available = True, load_model = Inl InferenceError\<rparr>"

subsection \<open>The confidence of the classifier path in the words of the specification\<close>

text \<open>
  The clamp to \<open>[0, 1]\<close> of the larger of \<open>|s - t| * 2\<close> and \<open>1 - |0.5 - s| * 2\<close>, raised
  to at least 0.85 when \<open>s \<le> 0.1\<close> or \<open>s \<ge> 0.9\<close>: first in exact arithmetic, as the
  sentence reads, then with the operations and literals of double arithmetic.
\<close>

definition spec_confidence :: "rat \<Rightarrow> rat \<Rightarrow> rat" where
  "spec_confidence s t =
     (let c = max 0 (min 1 (max (\<bar>s - t\<bar> * 2) (1 - \<bar>1 / 2 - s\<bar> * 2)))
      in if s \<le> 1 / 10 \<or> 9 / 10 \<le> s then max c (85 / 100) else c)"

definition spec_confidence_fl :: "rat \<Rightarrow> rat \<Rightarrow> rat" where
  "spec_confidence_fl s t =
     (let c = max 0 (min 1 (max (fl (\<bar>fl (s - t)\<bar> * 2)) (fl (1 - fl (\<bar>fl (1 / 2 - s)\<bar> * 2)))))
      in if s \<le> fl (1 / 10) \<or> fl (9 / 10) \<le> s then max c (fl (85 / 100)) else c)"

subsection \<open>Rounding to three decimals, as a property\<close>

text \<open>
  \<open>r\<close> is \<open>x\<close> rounded to three decimals: a multiple of 0.001 at distance at most 0.0005
  from \<open>x\<close>, and the even multiple when \<open>x\<close> lies half way between two.
\<close>

definition rounded3 :: "rat \<Rightarrow> rat \<Rightarrow> bool" where
  "rounded3 x r =
     (r = of_int \<lfloor>r * 1000\<rfloor> / 1000 \<and> \<bar>r - x\<bar> \<le> 1 / 2000 \<and>
      (\<bar>r - x\<bar> = 1 / 2000 \<longrightarrow> even \<lfloor>r * 1000\<rfloor>))"

section \<open>Properties\<close>

subsection \<open>Rounding\<close>

lemma round_half_even_ge: "of_int n \<le> q \<Longrightarrow> n \<le> round_half_even q"
proof -
  assume "of_int n \<le> q"
  then have "n \<le> \<lfloor>q\<rfloor>" by (simp add: le_floor_iff)
  then show ?thesis by (simp add: round_half_even_def Let_def)
qed

lemma round_half_even_le: "q \<le> of_int n \<Longrightarrow> round_half_even q \<le> n"
proof -
  assume h: "q \<le> of_int n"
  then have f: "\<lfloor>q\<rfloor> \<le> n" by (simp add: floor_le_iff) 
  show ?thesis
  proof (cases "\<lfloor>q\<rfloor> = n")
    case True
    have "of_int \<lfloor>q\<rfloor> \<le> q" by simp
    with True h have "q = of_int n" by simp
    then show ?thesis by (simp add: round_half_even_def Let_def)
  next
    case False
    with f have "\<lfloor>q\<rfloor> + 1 \<le> n" by simp
    then show ?thesis by (simp add: round_half_even_def Let_def)
  qed
qed

lemma py_round_ge: "of_int k / 1000 \<le> x \<Longrightarrow> of_int k / 1000 \<le> py_round x 3"
proof -
  assume "of_int k / 1000 \<le> x"
  then have "of_int k \<le> x * 10 ^ 3" by (simp add: field_simps)
  then have "k \<le> round_half_even (x * 10 ^ 3)" by (rule round_half_even_ge)
  then have "(of_int k :: rat) \<le> of_int (round_half_even (x * 10 ^ 3))" by simp
  then show ?thesis by (simp add: py_round_def divide_right_mono)
qed

lemma py_round_le: "x \<le> of_int k / 1000 \<Longrightarrow> py_round x 3 \<le> of_int k / 1000"
proof -
  assume "x \<le> of_int k / 1000"
  then have "x * 10 ^ 3 \<le> of_int k" by (simp add: field_simps)
  then have "round_half_even (x * 10 ^ 3) \<le> k" by (rule round_half_even_le)
  then have "(of_int (round_half_even (x * 10 ^ 3)) :: rat) \<le> of_int k" by simp
  then show ?thesis by (simp add: py_round_def divide_right_mono)
qed

lemma py_round_0: "py_round 0 n = 0"
  by (simp add: py_round_def round_half_even_def)

subsection \<open>Double arithmetic\<close>

text \<open>
  The bit length brackets a positive integer between two powers of two, so \<open>binade\<close>
  is the exponent of its argument. Hence \<open>fl\<close> can be evaluated at a known exponent
  (\<open>fl_eval\<close>), leaves a number with a significand of at most 53 bits as it is
  (\<open>fl_exact\<close>), and on \<open>[-1, 1]\<close> errs by at most \<open>2\<^sup>-\<^sup>5\<^sup>3\<close> (\<open>fl_error\<close>).
\<close>

declare bit_length.simps [simp del]

lemma bit_length_bounds:
  "0 < n \<Longrightarrow> 2 ^ (bit_length n - 1) \<le> n \<and> n < 2 ^ bit_length n"
proof (induction n rule: bit_length.induct)
  case (1 n)
  show ?case
  proof (cases "n div 2 = 0")
    case True
    with "1.prems" have "n = 1" by (simp add: div_eq_0_iff) 
    then show ?thesis by (simp add: bit_length.simps [of "Suc 0"] bit_length.simps [of 0])
  next
    case False
    then have pos: "0 < n div 2" by simp
    from "1.IH" [OF _ pos] "1.prems"
    have ih: "2 ^ (bit_length (n div 2) - 1) \<le> n div 2" "n div 2 < 2 ^ bit_length (n div 2)"
      by simp_all
    have b: "bit_length n = Suc (bit_length (n div 2))"
      using "1.prems" by (simp add: bit_length.simps [of n])
    have one: "1 \<le> bit_length (n div 2)"
      using pos by (simp add: bit_length.simps [of "n div 2"])
    have "(2::nat) ^ bit_length (n div 2) = 2 * 2 ^ (bit_length (n div 2) - 1)"
      using one by (cases "bit_length (n div 2)") simp_all
    then have lo: "2 ^ bit_length (n div 2) \<le> n" using ih(1) by linarith
    have hi: "n < 2 * 2 ^ bit_length (n div 2)" using ih(2) by linarith
    show ?thesis using lo hi by (simp add: b)
  qed
qed

lemma bit_length_pos: "0 < n \<Longrightarrow> 1 \<le> bit_length n"
  by (simp add: bit_length.simps [of n])

lemma int_bounds:
  "0 < (n::int) \<Longrightarrow> (2::rat) powi (int (bit_length (nat n)) - 1) \<le> of_int n
     \<and> (of_int n :: rat) < 2 powi (int (bit_length (nat n)))"
proof -
  assume n: "0 < n"
  define b where "b = bit_length (nat n)"
  define m where "m = nat n"
  from n have mpos: "0 < m" and mn: "(of_nat m :: rat) = of_int n" by (simp_all add: m_def)
  from bit_length_bounds [OF mpos] have lo: "2 ^ (b - 1) \<le> m" and hi: "m < 2 ^ b"
    by (simp_all add: b_def m_def)
  from bit_length_pos [OF mpos] have one: "1 \<le> b" by (simp add: b_def m_def)
  have "(of_nat (2 ^ (b - 1)) :: rat) \<le> of_nat m" using lo by (rule of_nat_mono)
  then have lo': "(2::rat) ^ (b - 1) \<le> of_int n" by (simp add: mn)
  have "(of_nat m :: rat) < of_nat (2 ^ b)" using hi by (simp only: of_nat_less_iff)
  then have hi': "(of_int n :: rat) < 2 ^ b" by (simp add: mn)
  have "int b - 1 = int (b - 1)" using one by simp
  then have "(2::rat) powi (int b - 1) = 2 ^ (b - 1)" by (simp only: power_int_of_nat)
  moreover have "(2::rat) powi (int b) = 2 ^ b" by (simp only: power_int_of_nat)
  ultimately show ?thesis using lo' hi' by (simp only: b_def m_def)
qed

lemma pow2_add: "(2::rat) powi i * 2 powi j = 2 powi (i + j)"
  by (simp add: power_int_add)

lemma binade_bounds:
  "0 < a \<Longrightarrow> 2 powi binade a \<le> a \<and> a < 2 powi (binade a + 1)"
proof -
  assume a: "0 < a"
  obtain n d where q: "quotient_of a = (n, d)" by (cases "quotient_of a")
  then have d: "0 < d" by (rule quotient_of_denom_pos)
  from q have eq: "a = of_int n / of_int d" by (rule quotient_of_div)
  from a d eq have n: "0 < n" by (simp add: zero_less_divide_iff)
  define bn where "bn = int (bit_length (nat n))"
  define bd where "bd = int (bit_length (nat d))"
  define k where "k = bn - bd"
  from int_bounds [OF n] have nlo: "(2::rat) powi (bn - 1) \<le> of_int n"
    and nhi: "(of_int n :: rat) < 2 powi bn" unfolding bn_def by blast+
  from int_bounds [OF d] have dlo: "(2::rat) powi (bd - 1) \<le> of_int d"
    and dhi: "(of_int d :: rat) < 2 powi bd" unfolding bd_def by blast+
  have dpos: "(0::rat) < of_int d" using d by simp
  have p: "(0::rat) \<le> 2 powi (k + 1)" "(0::rat) \<le> 2 powi (k - 1)" by simp_all
  have "(2::rat) powi (k + 1) * 2 powi (bd - 1) = 2 powi bn"
    unfolding pow2_add k_def by simp
  then have "(of_int n :: rat) < 2 powi (k + 1) * 2 powi (bd - 1)" using nhi by simp
  also have "\<dots> \<le> 2 powi (k + 1) * of_int d"
    using dlo p(1) by (rule mult_left_mono)
  finally have up: "a < 2 powi (k + 1)" using dpos by (simp add: eq pos_divide_less_eq)
  have "(2::rat) powi (k - 1) * of_int d \<le> 2 powi (k - 1) * 2 powi bd"
    using dhi p(2) by (intro mult_left_mono) simp_all
  also have "\<dots> = 2 powi (bn - 1)" unfolding pow2_add k_def by simp
  also have "\<dots> \<le> of_int n" by (rule nlo)
  finally have low: "2 powi (k - 1) \<le> a" using dpos by (simp add: eq pos_le_divide_eq)
  have kk: "int (bit_length (nat n)) - int (bit_length (nat d)) = k"
    by (simp add: k_def bn_def bd_def)
  show ?thesis
  proof (cases "2 powi k \<le> a")
    case True
    then have "binade a = k" by (simp add: binade_def q Let_def kk)
    with True up show ?thesis by simp
  next
    case False
    then have "binade a = k - 1" by (simp add: binade_def q Let_def kk)
    with False low show ?thesis by simp
  qed
qed

lemma binade_unique:
  "0 < a \<Longrightarrow> 2 powi e \<le> a \<Longrightarrow> a < 2 powi (e + 1) \<Longrightarrow> binade a = e"
proof -
  assume a: "0 < a" and lo: "2 powi e \<le> a" and hi: "a < 2 powi (e + 1)"
  from binade_bounds [OF a] have blo: "2 powi binade a \<le> a" and bhi: "a < 2 powi (binade a + 1)"
    by simp_all
  have "\<not> binade a + 1 \<le> e"
  proof
    assume "binade a + 1 \<le> e"
    then have "(2::rat) powi (binade a + 1) \<le> 2 powi e" by (intro power_int_increasing) simp_all
    with bhi lo show False by simp
  qed
  moreover have "\<not> e + 1 \<le> binade a"
  proof
    assume "e + 1 \<le> binade a"
    then have "(2::rat) powi (e + 1) \<le> 2 powi binade a" by (intro power_int_increasing) simp_all
    with hi blo show False by simp
  qed
  ultimately show ?thesis by simp
qed

lemma round_half_even_near: "\<bar>of_int (round_half_even y) - y\<bar> \<le> 1 / 2"
proof -
  have "of_int \<lfloor>y\<rfloor> \<le> y" "y < of_int \<lfloor>y\<rfloor> + 1" by linarith+
  then show ?thesis by (auto simp: round_half_even_def Let_def)
qed

lemma round_half_even_tie:
  "\<bar>of_int (round_half_even y) - y\<bar> = 1 / 2 \<Longrightarrow> even (round_half_even y)"
proof -
  have "of_int \<lfloor>y\<rfloor> \<le> y" "y < of_int \<lfloor>y\<rfloor> + 1" by linarith+
  then show "\<bar>of_int (round_half_even y) - y\<bar> = 1 / 2 \<Longrightarrow> even (round_half_even y)"
    by (auto simp: round_half_even_def Let_def split: if_splits)
qed

lemma round_half_even_int: "round_half_even (of_int n) = n"
  by (simp add: round_half_even_def)

lemma fl_nonneg: "0 \<le> x \<Longrightarrow> 0 \<le> fl x"
proof (cases "x = 0")
  case True
  then show ?thesis by (simp add: fl_def)
next
  case False
  assume "0 \<le> x"
  with False have x: "0 < x" by simp
  let ?q = "(2::rat) powi (max (binade \<bar>x\<bar>) (- 1022) - 52)"
  have q: "0 < ?q" by simp
  then have "of_int 0 \<le> \<bar>x\<bar> / ?q" using x by simp
  then have "0 \<le> round_half_even (\<bar>x\<bar> / ?q)" by (rule round_half_even_ge)
  then have "0 \<le> (of_int (round_half_even (\<bar>x\<bar> / ?q)) :: rat) * ?q" using q by simp
  then show ?thesis using x by (simp add: fl_def Let_def)
qed

lemma fl_eval:
  "x \<noteq> 0 \<Longrightarrow> 2 powi e \<le> \<bar>x\<bar> \<Longrightarrow> \<bar>x\<bar> < 2 powi (e + 1) \<Longrightarrow> - 1022 \<le> e \<Longrightarrow>
   fl x = sgn x * (of_int (round_half_even (\<bar>x\<bar> / 2 powi (e - 52))) * 2 powi (e - 52))"
proof -
  assume x: "x \<noteq> 0" and lo: "2 powi e \<le> \<bar>x\<bar>" and hi: "\<bar>x\<bar> < 2 powi (e + 1)" and e: "- 1022 \<le> e"
  from x have "0 < \<bar>x\<bar>" by simp
  from binade_unique [OF this lo hi] have "binade \<bar>x\<bar> = e" .
  then show ?thesis using x e by (simp add: fl_def Let_def max_def)
qed

lemma fl_unfold:
  "x \<noteq> 0 \<Longrightarrow>
   fl x = sgn x * (of_int (round_half_even (\<bar>x\<bar> / 2 powi (max (binade \<bar>x\<bar>) (- 1022) - 52)))
                    * 2 powi (max (binade \<bar>x\<bar>) (- 1022) - 52))"
  by (simp add: fl_def Let_def)

lemma sgn_factor: "x \<noteq> 0 \<Longrightarrow> \<bar>sgn x * y - x\<bar> = \<bar>y - \<bar>x\<bar>\<bar>" for x y :: rat
proof -
  assume x: "x \<noteq> 0"
  have "sgn x * y - x = sgn x * y - sgn x * \<bar>x\<bar>" by (simp only: mult_sgn_abs)
  also have "\<dots> = sgn x * (y - \<bar>x\<bar>)" by (simp add: algebra_simps)
  finally have "\<bar>sgn x * y - x\<bar> = \<bar>sgn x\<bar> * \<bar>y - \<bar>x\<bar>\<bar>" by (simp only: abs_mult)
  also have "\<bar>sgn x\<bar> = 1" using x by (simp add: abs_sgn_eq)
  finally show ?thesis by simp
qed

lemma fl_error: "\<bar>x\<bar> \<le> 1 \<Longrightarrow> \<bar>fl x - x\<bar> \<le> 1 / 2 ^ 53"
proof (cases "x = 0")
  case True
  then show ?thesis by (simp add: fl_def)
next
  case False
  assume le: "\<bar>x\<bar> \<le> 1"
  define a where "a = \<bar>x\<bar>"
  define e where "e = max (binade a) (- 1022)"
  define q where "q = (2::rat) powi (e - 52)"
  define r where "r = (of_int (round_half_even (a / q)) :: rat)"
  from False have a: "0 < a" by (simp add: a_def)
  from binade_bounds [OF a] have "2 powi binade a \<le> a" by simp
  with le have b1: "(2::rat) powi binade a \<le> 1" by (simp add: a_def)
  have "\<not> 1 \<le> binade a"
  proof
    assume "1 \<le> binade a"
    then have "(2::rat) powi 1 \<le> 2 powi binade a" by (rule power_int_increasing) simp
    with b1 show False by simp
  qed
  then have "e - 52 \<le> - 52" by (simp add: e_def)
  then have "q \<le> 2 powi (- 52)" unfolding q_def by (rule power_int_increasing) simp
  then have q52: "q \<le> 1 / 2 ^ 52" by (simp add: power_int_minus_divide)
  have q: "0 < q" by (simp add: q_def)
  have near: "\<bar>r - a / q\<bar> \<le> 1 / 2" unfolding r_def by (rule round_half_even_near)
  have "r * q - a = (r - a / q) * q" using q by (simp add: field_simps)
  then have "\<bar>r * q - a\<bar> = \<bar>r - a / q\<bar> * q" using q by (simp add: abs_mult)
  also have "\<dots> \<le> 1 / 2 * q" using near q by (intro mult_right_mono) simp_all
  also have "\<dots> \<le> 1 / 2 * (1 / 2 ^ 52)" using q52 by simp
  finally have bound: "\<bar>r * q - a\<bar> \<le> 1 / 2 ^ 53" by simp
  have "fl x = sgn x * (r * q)"
    unfolding r_def q_def e_def a_def by (rule fl_unfold [OF False])
  then have "\<bar>fl x - x\<bar> = \<bar>r * q - a\<bar>" using sgn_factor [OF False, of "r * q"] by (simp add: a_def)
  with bound show ?thesis by simp
qed

lemma fl_exact:
  "x = of_int m * 2 powi k \<Longrightarrow> \<bar>m\<bar> < 2 ^ 53 \<Longrightarrow> - 1074 \<le> k \<Longrightarrow> fl x = x"
proof (cases "m = 0")
  case True
  assume "x = of_int m * 2 powi k"
  with True show ?thesis by (simp add: fl_def)
next
  case False
  assume xm: "x = of_int m * 2 powi k" and m: "\<bar>m\<bar> < 2 ^ 53" and k: "- 1074 \<le> k"
  define a where "a = \<bar>x\<bar>"
  define e where "e = max (binade a) (- 1022)"
  define q where "q = (2::rat) powi (e - 52)"
  have x0: "x \<noteq> 0" using False xm by simp
  have am: "a = of_int \<bar>m\<bar> * 2 powi k" by (simp add: a_def xm abs_mult)
  from x0 have a: "0 < a" by (simp add: a_def)
  have "(of_int \<bar>m\<bar> :: rat) < of_int (2 ^ 53)" using m by (simp only: of_int_less_iff)
  then have "(of_int \<bar>m\<bar> :: rat) < 2 powi 53" by simp
  then have "a < 2 powi 53 * 2 powi k" unfolding am by (rule mult_strict_right_mono) simp
  then have ahi: "a < 2 powi (53 + k)" by (simp only: pow2_add)
  from binade_bounds [OF a] have "2 powi binade a \<le> a" by simp
  with ahi have lt: "(2::rat) powi binade a < 2 powi (53 + k)" by simp
  have "\<not> 53 + k \<le> binade a"
  proof
    assume "53 + k \<le> binade a"
    then have "(2::rat) powi (53 + k) \<le> 2 powi binade a" by (rule power_int_increasing) simp
    with lt show False by simp
  qed
  with k have j: "0 \<le> k + 52 - e" by (simp add: e_def)
  define j where "j = nat (k + 52 - e)"
  have "(2::rat) powi (k + 52 - e) * q = 2 powi k" unfolding q_def pow2_add by simp
  moreover have "(2::rat) powi (k + 52 - e) = 2 ^ j" using j by (simp add: power_int_nonneg_exp j_def)
  ultimately have kq: "(2::rat) ^ j * q = 2 powi k" by simp
  have q: "q \<noteq> 0" by (simp add: q_def)
  have "a = of_int \<bar>m\<bar> * (2 ^ j * q)" by (simp only: am kq)
  then have aq: "a = of_int (\<bar>m\<bar> * 2 ^ j) * q" by simp
  then have "a / q = of_int (\<bar>m\<bar> * 2 ^ j)" using q by simp
  then have "round_half_even (a / q) = \<bar>m\<bar> * 2 ^ j" by (simp only: round_half_even_int)
  then have "of_int (round_half_even (a / q)) * q = a" using aq by simp
  moreover have "fl x = sgn x * (of_int (round_half_even (a / q)) * q)"
    unfolding q_def e_def a_def by (rule fl_unfold [OF x0])
  ultimately have "fl x = sgn x * a" by simp
  then show ?thesis by (simp add: a_def mult_sgn_abs)
qed

text \<open>The doubles that the literals 0.1, 0.9, 0.85 and 0.95 denote.\<close>

lemma fl_tenth: "fl (1 / 10) = 3602879701896397 / 36028797018963968"
proof -
  have r: "round_half_even (36028797018963968 / 5) = 7205759403792794" by code_simp
  show ?thesis using fl_eval [of "1 / 10" "- 4"] by (simp add: r power_int_minus_divide)
qed

lemma fl_nine_tenths: "fl (9 / 10) = 8106479329266893 / 9007199254740992"
proof -
  have r: "round_half_even (40532396646334464 / 5) = 8106479329266893" by code_simp
  show ?thesis using fl_eval [of "9 / 10" "- 1"] by (simp add: r power_int_minus_divide)
qed

lemma fl_85: "fl (85 / 100) = 7656119366529843 / 9007199254740992"
proof -
  have r: "round_half_even (38280596832649216 / 5) = 7656119366529843" by code_simp
  show ?thesis using fl_eval [of "85 / 100" "- 1"] by (simp add: r power_int_minus_divide)
qed

lemma fl_95: "fl (95 / 100) = 4278419646001971 / 4503599627370496"
proof -
  have r: "round_half_even (42784196460019712 / 5) = 8556839292003942" by code_simp
  show ?thesis using fl_eval [of "95 / 100" "- 1"] by (simp add: r power_int_minus_divide)
qed


lemma fl_85_reduced: "fl (17 / 20) = 7656119366529843 / 9007199254740992"
  using fl_85 by simp

lemma fl_95_reduced: "fl (19 / 20) = 4278419646001971 / 4503599627370496"
  using fl_95 by simp

lemma fl_85_le: "fl (85 / 100) \<le> 1"
  by (simp add: fl_85_reduced)

lemma round_half_even_above: "of_int n - 1 / 2 < y \<Longrightarrow> n \<le> round_half_even y"
proof -
  assume h: "of_int n - 1 / 2 < y"
  have "\<bar>of_int (round_half_even y) - y\<bar> \<le> 1 / 2" by (rule round_half_even_near)
  then have "y - 1 / 2 \<le> of_int (round_half_even y)" by linarith
  with h have "(of_int n :: rat) - 1 < of_int (round_half_even y)" by linarith
  then have "(of_int (n - 1) :: rat) < of_int (round_half_even y)" by simp
  then have "n - 1 < round_half_even y" by (simp only: of_int_less_iff)
  then show ?thesis by simp
qed

lemma py_round_85_fl: "fl (85 / 100) \<le> x \<Longrightarrow> 85 / 100 \<le> py_round x 3"
proof -
  assume "fl (85 / 100) \<le> x"
  then have "of_int 850 - 1 / 2 < x * 10 ^ 3" by (simp add: fl_85_reduced)
  then have "850 \<le> round_half_even (x * 10 ^ 3)" by (rule round_half_even_above)
  then have "(of_int 850 :: rat) \<le> of_int (round_half_even (x * 10 ^ 3))" by (simp only: of_int_le_iff)
  then show ?thesis by (simp add: py_round_def)
qed

text \<open>A double in \<open>[1/2, 1)\<close> is a multiple of \<open>2\<^sup>-\<^sup>5\<^sup>3\<close>.\<close>

lemma double_grid:
  "fl p = p \<Longrightarrow> 1 / 2 \<le> p \<Longrightarrow> p < 1 \<Longrightarrow> \<exists>m::int. p = of_int m / 2 ^ 53"
proof -
  assume d: "fl p = p" and lo: "1 / 2 \<le> p" and hi: "p < 1"
  from lo have "p \<noteq> 0" "\<bar>p\<bar> = p" "sgn p = 1" by simp_all
  with fl_eval [of p "- 1"] lo hi
  have "fl p = of_int (round_half_even (p / 2 powi (- 53))) * 2 powi (- 53)"
    by (simp add: power_int_minus_divide)
  with d have "p = of_int (round_half_even (p / 2 powi (- 53))) / 2 ^ 53"
    by (simp add: power_int_minus_divide)
  then show ?thesis by blast
qed

lemma double_nine_tenths: "fl p = p \<Longrightarrow> 9 / 10 \<le> p \<Longrightarrow> fl (9 / 10) \<le> max 0 (min 1 p)"
proof (cases "1 \<le> p")
  case True
  then show ?thesis by (simp add: fl_nine_tenths)
next
  case False
  assume d: "fl p = p" and lo: "9 / 10 \<le> p"
  from False have hi: "p < 1" by simp
  from lo have "1 / 2 \<le> p" by simp
  from double_grid [OF d this hi] obtain m :: int where m: "p = of_int m / 2 ^ 53" by blast
  from lo have "(of_int 8106479329266892 :: rat) < of_int m" unfolding m by (simp add: field_simps)
  then have "8106479329266892 < m" by (simp only: of_int_less_iff)
  then have "8106479329266893 \<le> m" by simp
  then have "(of_int 8106479329266893 :: rat) \<le> of_int m" by (simp only: of_int_le_iff)
  then have "fl (9 / 10) \<le> p" unfolding m by (simp add: fl_nine_tenths field_simps)
  with hi show ?thesis by simp
qed

lemma tenth_le: "s \<le> 1 / 10 \<Longrightarrow> s \<le> fl (1 / 10)"
  by (simp add: fl_tenth)

lemma rounded3_py_round: "rounded3 x (py_round x 3)"
proof -
  define n where "n = round_half_even (x * 10 ^ 3)"
  have r: "py_round x 3 = of_int n / 1000" by (simp add: py_round_def n_def)
  have fl: "\<lfloor>py_round x 3 * 1000\<rfloor> = n" by (simp add: r)
  have near: "\<bar>of_int n - x * 10 ^ 3\<bar> \<le> 1 / 2" unfolding n_def by (rule round_half_even_near)
  have d: "\<bar>py_round x 3 - x\<bar> = \<bar>of_int n - x * 10 ^ 3\<bar> / 1000"
  proof -
    have "py_round x 3 - x = (of_int n - x * 10 ^ 3) / 1000" by (simp add: r field_simps)
    then show ?thesis by (simp only: abs_divide)
  qed
  have tie: "\<bar>of_int n - x * 10 ^ 3\<bar> = 1 / 2 \<Longrightarrow> even n"
    unfolding n_def by (rule round_half_even_tie)
  have c1: "py_round x 3 = of_int \<lfloor>py_round x 3 * 1000\<rfloor> / 1000" by (simp only: fl) (rule r)
  have c2: "\<bar>py_round x 3 - x\<bar> \<le> 1 / 2000" using near unfolding d by simp
  have c3: "\<bar>py_round x 3 - x\<bar> = 1 / 2000 \<longrightarrow> even \<lfloor>py_round x 3 * 1000\<rfloor>"
  proof
    assume "\<bar>py_round x 3 - x\<bar> = 1 / 2000"
    then have "\<bar>of_int n - x * 10 ^ 3\<bar> = 1 / 2" unfolding d by simp
    then have "even n" by (rule tie)
    then show "even \<lfloor>py_round x 3 * 1000\<rfloor>" by (simp only: fl)
  qed
  from c1 c2 c3 show ?thesis unfolding rounded3_def by blast
qed

lemma rounded3_unique: "rounded3 x r \<Longrightarrow> rounded3 x r' \<Longrightarrow> r = r'"
proof -
  assume a: "rounded3 x r" and b: "rounded3 x r'"
  define k where "k = \<lfloor>r * 1000\<rfloor>"
  define k' where "k' = \<lfloor>r' * 1000\<rfloor>"
  from a have r: "r = of_int k / 1000" and n: "\<bar>r - x\<bar> \<le> 1 / 2000"
    and t: "\<bar>r - x\<bar> = 1 / 2000 \<Longrightarrow> even k" by (simp_all add: rounded3_def k_def)
  from b have r': "r' = of_int k' / 1000" and n': "\<bar>r' - x\<bar> \<le> 1 / 2000"
    and t': "\<bar>r' - x\<bar> = 1 / 2000 \<Longrightarrow> even k'" by (simp_all add: rounded3_def k'_def)
  have "\<bar>r - r'\<bar> \<le> 1 / 1000" using n n' by linarith
  then have "\<bar>(of_int (k - k') :: rat)\<bar> \<le> 1" unfolding r r' by (simp add: field_simps)
  then have "\<bar>(of_int (k - k') :: rat)\<bar> \<le> of_int 1" by simp
  then have "(of_int \<bar>k - k'\<bar> :: rat) \<le> of_int 1" by (simp only: of_int_abs)
  then have close: "\<bar>k - k'\<bar> \<le> 1" by (simp only: of_int_le_iff)
  show ?thesis
  proof (cases "k = k'")
    case True
    then show ?thesis by (simp add: r r')
  next
    case False
    with close have one: "\<bar>k - k'\<bar> = 1" by linarith
    then have "\<bar>(of_int (k - k') :: rat)\<bar> = 1" by (simp only: flip: of_int_abs)
    then have "\<bar>r - r'\<bar> = 1 / 1000" unfolding r r' by (simp add: field_simps abs_if split: if_splits)
    with n n' have "\<bar>r - x\<bar> = 1 / 2000" "\<bar>r' - x\<bar> = 1 / 2000" by linarith+
    then have "even k" "even k'" using t t' by blast+
    then have "even (k - k')" by simp
    with one show ?thesis by presburger
  qed
qed

subsection \<open>Construction and the tally\<close>

lemma init_pattern:
  "\<not> (use_ml \<and> transformers_available e \<and> (\<exists>l. load_model e = Inr l)) \<Longrightarrow> init e use_ml = pattern_detector"
  by (cases "load_model e")
     (auto simp: init_def initialize_ml_model_def initialize_rule_based_def pattern_detector_def blank_def Let_def)

lemma init_ml:
  "transformers_available e \<Longrightarrow> load_model e = Inr l \<Longrightarrow>
   use_ml_model (init e True) \<and> compiled_patterns (init e True) = None"
  by (simp add: init_def initialize_ml_model_def blank_def Let_def)

lemma rb_absent: "compiled_patterns self = None \<Longrightarrow> fst (check_toxicity_rule_based self now s) = Inl AttributeError"
  by (simp add: check_toxicity_rule_based_def find_toxic_patterns_def Let_def)

lemma index_cases: "(i::nat) = 0 \<or> i = 1 \<or> i = 2 \<or> i = 3 \<or> i = 4 \<or> i = 5 \<or> i = 6 \<or> 7 \<le> i"
  by arith

lemma score_categories_rule:
  "score_categories rule_categories (Some rule_weights) i st = Inr (bump st (m, i))"
proof -
  obtain d s where st: "st = (d, s)" by (cases st)
  from index_cases [of i] show ?thesis
    by (elim disjE)
       (simp_all add: st rule_categories_def rule_weights_def bump_def category_of_pattern_def weight_of_def)
qed

lemma score_matches_rule:
  "score_matches rule_categories (Some rule_weights) ms st = Inr (foldl bump st ms)"
proof (induction ms arbitrary: st)
  case Nil
  show ?case by simp
next
  case (Cons m ms)
  obtain g i where m: "m = (g, i)" by (cases m)
  show ?case by (simp add: m score_categories_rule [of i _ g] Cons.IH)
qed

lemma keys_dict_add:
  "map fst (dict_add k w d) = (if k \<in> set (map fst d) then map fst d else map fst d @ [k])"
  by (induction d) (force+)

lemma set_keys_dict_add: "fst ` set (dict_add k w d) = insert k (fst ` set d)"
proof -
  have "set (map fst (dict_add k w d)) = insert k (set (map fst d))"
    unfolding keys_dict_add by auto
  then show ?thesis by simp
qed

lemma val_dict_add:
  "val (dict_add k w d) c = (if c = k then val d k + w else val d c)"
  by (induction d) (auto simp: val_def)

lemma sum_values:
  "distinct (map fst d) \<Longrightarrow> sum_list (map snd d) = (\<Sum>k \<in> set (map fst d). val d k)"
proof (induction d)
  case Nil
  show ?case by simp
next
  case (Cons kv d)
  obtain k v where kv: "kv = (k, v)" by (cases kv)
  from Cons.prems have nk: "k \<notin> set (map fst d)" and dd: "distinct (map fst d)"
    by (simp_all add: kv)
  have same: "(\<Sum>x \<in> set (map fst d). val (kv # d) x) = (\<Sum>x \<in> set (map fst d). val d x)"
    using nk by (intro sum.cong) (auto simp: val_def kv)
  have "(\<Sum>x \<in> set (map fst (kv # d)). val (kv # d) x)
        = val (kv # d) k + (\<Sum>x \<in> set (map fst d). val (kv # d) x)"
    using nk by (simp add: kv)
  also have "\<dots> = v + sum_list (map snd d)"
    using same Cons.IH [OF dd] by (simp add: val_def kv)
  finally show ?case by (simp add: kv)
qed

lemma bump_keys:
  "snd st = map fst (fst st) \<Longrightarrow> snd (bump st m) = map fst (fst (bump st m))"
  by (auto simp: bump_def set_add_def keys_dict_add split: option.splits)

lemma bump_distinct:
  "distinct (map fst (fst st)) \<Longrightarrow> distinct (map fst (fst (bump st m)))"
  by (auto simp: bump_def keys_dict_add split: option.splits)

lemma bump_set:
  "set (map fst (fst (bump st m))) =
   set (map fst (fst st)) \<union> (case category_of_pattern (snd m) of None \<Rightarrow> {} | Some c \<Rightarrow> {c})"
  by (simp add: bump_def set_keys_dict_add split: option.splits)

lemma bump_val:
  "val (fst (bump st m)) c =
   val (fst st) c + (if category_of_pattern (snd m) = Some c then weight_of c else 0)"
  by (auto simp: bump_def val_dict_add split: option.splits)

lemma foldl_bump:
  "snd st = map fst (fst st) \<Longrightarrow> distinct (map fst (fst st)) \<Longrightarrow>
   snd (foldl bump st ms) = map fst (fst (foldl bump st ms)) \<and>
   distinct (map fst (fst (foldl bump st ms))) \<and>
   set (map fst (fst (foldl bump st ms))) = set (map fst (fst st)) \<union> {c. 0 < hits c ms} \<and>
   (\<forall>c. val (fst (foldl bump st ms)) c = val (fst st) c + weight_of c * of_nat (hits c ms))"
proof (induction ms arbitrary: st)
  case Nil
  show ?case using Nil.prems by (simp add: hits_def)
next
  case (Cons m ms)
  have a: "snd (bump st m) = map fst (fst (bump st m))" using Cons.prems(1) by (rule bump_keys)
  have b: "distinct (map fst (fst (bump st m)))" using Cons.prems(2) by (rule bump_distinct)
  note ih = Cons.IH [OF a b]
  have s: "set (map fst (fst (bump st m))) \<union> {c. 0 < hits c ms}
           = set (map fst (fst st)) \<union> {c. 0 < hits c (m # ms)}"
    unfolding bump_set by (auto simp: hits_def split: option.splits)
  have v: "\<And>c. val (fst (bump st m)) c + weight_of c * of_nat (hits c ms)
           = val (fst st) c + weight_of c * of_nat (hits c (m # ms))"
    unfolding bump_val by (simp add: hits_def algebra_simps)
  show ?case using ih s v by simp
qed

lemma cat_pred:
  "(category_of_pattern i = Some ''profanity'') = (i \<in> set [0, 1])"
  "(category_of_pattern i = Some ''hate_speech'') = (i \<in> set [2, 3])"
  "(category_of_pattern i = Some ''harassment'') = (i \<in> set [4, 5])"
  "(category_of_pattern i = Some ''toxic_behavior'') = (i \<in> set [6])"
  unfolding category_of_pattern_def by (simp_all, arith+)

lemma hits_occurrences:
  "hits ''profanity'' ms = occurrences [0, 1] ms"
  "hits ''hate_speech'' ms = occurrences [2, 3] ms"
  "hits ''harassment'' ms = occurrences [4, 5] ms"
  "hits ''toxic_behavior'' ms = occurrences [6] ms"
  unfolding hits_def occurrences_def cat_pred by (rule refl)+

lemma hits_other:
  "c \<notin> {''profanity'', ''hate_speech'', ''harassment'', ''toxic_behavior''} \<Longrightarrow> hits c ms = 0"
  by (auto simp: hits_def category_of_pattern_def)

lemma hit_names:
  "{c. 0 < hits c ms} =
     (if 0 < occurrences [0, 1] ms then {''profanity''} else {}) \<union>
     (if 0 < occurrences [2, 3] ms then {''hate_speech''} else {}) \<union>
     (if 0 < occurrences [4, 5] ms then {''harassment''} else {}) \<union>
     (if 0 < occurrences [6] ms then {''toxic_behavior''} else {})" (is "?L = ?R")
proof (rule set_eqI)
  fix c
  show "(c \<in> ?L) = (c \<in> ?R)"
  proof (cases "c \<in> {''profanity'', ''hate_speech'', ''harassment'', ''toxic_behavior''}")
    case True
    then consider "c = ''profanity''" | "c = ''hate_speech''" | "c = ''harassment''" | "c = ''toxic_behavior''"
      by blast
    then show ?thesis
      by cases (simp_all add: hits_occurrences)
  next
    case False
    then have "hits c ms = 0" by (rule hits_other)
    with False show ?thesis by simp
  qed
qed

lemma card_hit_names: "card {c. 0 < hits c ms} = matched_count ms"
  unfolding hit_names matched_count_def by simp

lemma weight_of_simps:
  "weight_of ''profanity'' = 3 / 10" "weight_of ''hate_speech'' = 9 / 10"
  "weight_of ''harassment'' = 7 / 10" "weight_of ''toxic_behavior'' = 5 / 10"
  by (simp_all add: weight_of_def rule_weights_def)

lemma sum_hit_names:
  "(\<Sum>k \<in> {c. 0 < hits c ms}. weight_of k * of_nat (hits k ms)) = of_nat (weighted_total ms) / 10"
proof -
  let ?T = "{''profanity'', ''hate_speech'', ''harassment'', ''toxic_behavior''}"
  let ?f = "\<lambda>k. weight_of k * (of_nat (hits k ms) :: rat)"
  have sub: "{c. 0 < hits c ms} \<subseteq> ?T" unfolding hit_names by auto
  have "sum ?f {c. 0 < hits c ms} = sum ?f ?T"
    by (rule sum.mono_neutral_left) (use sub in auto)
  also have "\<dots> = of_nat (weighted_total ms) / 10"
    by (simp add: weight_of_simps hits_occurrences weighted_total_def)
  finally show ?thesis .
qed

lemma spec_sum: "sum_list (map (accumulated ms) (matched ms)) = of_nat (weighted_total ms) / 10"
  by (simp add: matched_def accumulated_def pattern_categories_def weighted_total_def)

lemma spec_len: "length (matched ms) = matched_count ms"
  by (simp add: matched_def pattern_categories_def matched_count_def)

lemma spec_names: "set (map fst (matched ms)) = {c. 0 < hits c ms}"
  unfolding hit_names by (auto simp: matched_def pattern_categories_def)

lemma spec_distinct: "distinct (map fst (matched ms))"
  by (simp add: matched_def pattern_categories_def)

lemma pattern_detector_fields:
  "compiled_patterns pattern_detector = Some toxic_patterns"
  "toxicity_categories pattern_detector = Some (Rule_categories rule_categories)"
  "severity_weights pattern_detector = Some rule_weights"
  "use_ml_model pattern_detector = False"
  by (simp_all add: pattern_detector_def initialize_rule_based_def blank_def)

lemma calculate_spec:
  "calculate_toxicity_score pattern_detector ms = Inr (mean_score ms, matched_names ms)"
proof (cases "ms = []")
  case True
  then show ?thesis
    by (simp add: calculate_toxicity_score_def mean_score_def matched_names_def matched_def
        occurrences_def pattern_categories_def)
next
  case False
  obtain d s where ds: "foldl bump ([], []) ms = (d, s)" by (cases "foldl bump ([], []) ms")
  from foldl_bump [of "([], [])" ms] ds
  have s: "s = map fst d" and dist: "distinct (map fst d)"
    and keys: "set (map fst d) = {c. 0 < hits c ms}"
    and vals: "\<And>c. val d c = weight_of c * of_nat (hits c ms)"
    by (simp_all add: val_def)
  have total: "sum_list (map snd d) = of_nat (weighted_total ms) / 10"
    using sum_values [OF dist] by (simp only: keys vals sum_hit_names)
  have len: "length d = matched_count ms"
    using distinct_card [OF dist] by (simp add: keys card_hit_names del: set_map)
  have empty: "(d = []) = (matched ms = [])"
    using len spec_len [of ms] by (metis length_0_conv)
  have "sorted (sort s)" "distinct (sort s)" "sorted (matched_names ms)" "distinct (matched_names ms)"
    "set (sort s) = set (matched_names ms)"
    using dist spec_distinct [of ms] keys spec_names [of ms]
    by (simp_all add: s matched_names_def del: set_map)
  then have names: "sort s = matched_names ms" by (rule sorted_distinct_set_unique)
  show ?thesis
    using False
    by (simp add: calculate_toxicity_score_def pattern_detector_fields score_matches_rule ds
        names total len empty mean_score_def spec_sum spec_len)
qed

lemma occurrences_pos: "m \<in> set ms \<Longrightarrow> snd m \<in> set idxs \<Longrightarrow> 0 < occurrences idxs ms"
  by (auto simp: occurrences_def filter_empty_conv)

lemma matched_count_pos: "m \<in> set ms \<Longrightarrow> snd m \<le> 6 \<Longrightarrow> 0 < matched_count ms"
proof -
  assume m: "m \<in> set ms" and "snd m \<le> 6"
  then have "snd m \<in> set [0, 1] \<or> snd m \<in> set [2, 3] \<or> snd m \<in> set [4, 5] \<or> snd m \<in> set [6]"
    using index_cases [of "snd m"] by auto
  then show ?thesis
  proof (elim disjE)
    assume "snd m \<in> set [0, 1]"
    then have "0 < occurrences [0, 1] ms" by (rule occurrences_pos [OF m])
    then show ?thesis by (simp add: matched_count_def)
  next
    assume "snd m \<in> set [2, 3]"
    then have "0 < occurrences [2, 3] ms" by (rule occurrences_pos [OF m])
    then show ?thesis by (simp add: matched_count_def)
  next
    assume "snd m \<in> set [4, 5]"
    then have "0 < occurrences [4, 5] ms" by (rule occurrences_pos [OF m])
    then show ?thesis by (simp add: matched_count_def)
  next
    assume "snd m \<in> set [6]"
    then have "0 < occurrences [6] ms" by (rule occurrences_pos [OF m])
    then show ?thesis by (simp add: matched_count_def)
  qed
qed

lemma matched_count_le: "matched_count ms \<le> 4"
  by (simp add: matched_count_def)

lemma weighted_total_ge: "3 * matched_count ms \<le> weighted_total ms"
  by (simp add: matched_count_def weighted_total_def)

lemma matched_empty: "(matched ms = []) = (matched_count ms = 0)"
  by (simp only: spec_len [symmetric] length_0_conv)

lemma mean_score_eq:
  "mean_score ms =
     (if matched_count ms = 0 then 0
      else min 1 (of_nat (weighted_total ms) / 10 / of_nat (matched_count ms)))"
  by (simp add: mean_score_def spec_sum matched_empty spec_len)

lemma mean_score_floor: "0 < matched_count ms \<Longrightarrow> 3 / 10 \<le> mean_score ms"
proof -
  assume pos: "0 < matched_count ms"
  have "(of_nat (3 * matched_count ms) :: rat) \<le> of_nat (weighted_total ms)"
    using weighted_total_ge [of ms] by (simp only: of_nat_le_iff)
  then have "3 * (of_nat (matched_count ms) :: rat) \<le> of_nat (weighted_total ms)" by simp
  then have "3 / 10 \<le> (of_nat (weighted_total ms) :: rat) / 10 / of_nat (matched_count ms)"
    using pos by (simp add: field_simps)
  then show ?thesis using pos by (simp add: mean_score_eq)
qed

lemma mean_score_gap: "1 / 2 < mean_score ms \<Longrightarrow> 501 / 1000 \<le> mean_score ms"
proof -
  assume h: "1 / 2 < mean_score ms"
  let ?n = "matched_count ms" and ?w = "weighted_total ms"
  from h have pos: "0 < ?n" by (auto simp: mean_score_eq split: if_splits)
  from h pos have "1 / 2 < (of_nat ?w :: rat) / 10 / of_nat ?n" by (simp add: mean_score_eq)
  then have "(of_nat (5 * ?n) :: rat) < of_nat ?w" using pos by (simp add: field_simps)
  then have "5 * ?n < ?w" by (simp only: of_nat_less_iff)
  then have "5 * ?n + 1 \<le> ?w" by simp
  then have "(of_nat (5 * ?n + 1) :: rat) \<le> of_nat ?w" by (simp only: of_nat_le_iff)
  then have w: "5 * (of_nat ?n :: rat) + 1 \<le> of_nat ?w" by simp
  have "(of_nat ?n :: rat) \<le> of_nat 4" using matched_count_le [of ms] by (simp only: of_nat_le_iff)
  then have n4: "(of_nat ?n :: rat) \<le> 4" by simp
  have "501 / 1000 \<le> (of_nat ?w :: rat) / 10 / of_nat ?n"
    using w n4 pos by (simp add: field_simps)
  then show ?thesis using pos by (simp add: mean_score_eq)
qed

lemma matched_names_empty: "(matched_names ms = []) = (matched_count ms = 0)"
proof -
  have "length (matched_names ms) = matched_count ms" by (simp add: matched_names_def spec_len)
  then show ?thesis by (simp only: length_0_conv [symmetric])
qed

lemma find_pattern:
  "\<exists>ms. find_toxic_patterns pattern_detector s = Inr ms \<and> (\<forall>m \<in> set ms. snd m < 6)"
  by (auto simp: find_toxic_patterns_def pattern_detector_fields in_set_enumerate_eq toxic_patterns_def)

lemma rule_based_pattern:
  "find_toxic_patterns pattern_detector (clean_content content) = Inr ms \<Longrightarrow>
   fst (check_toxicity_rule_based pattern_detector now content) =
     Inr \<lparr>is_toxic = (1 / 2 < mean_score ms),
          toxicity_score = py_round (mean_score ms) 3,
          confidence = py_round (min (9 / 10) (3 / 10 + of_nat (length ms) * (2 / 10))) 3,
          categories = matched_names ms,
          content_length = length content,
          timestamp = now,
          detector_version = ''1.0.0-rule-based'',
          model_used = ''rule-based-patterns'',
          threshold_used = None,
          raw_score = None\<rparr>"
  by (simp add: check_toxicity_rule_based_def Let_def calculate_spec)

lemma py_round_floor: "3 / 10 \<le> x \<Longrightarrow> 3 / 10 \<le> py_round x 3"
  using py_round_ge [of 300 x] by simp

lemma py_round_half_iff: "x \<le> 1 / 2 \<or> 501 / 1000 \<le> x \<Longrightarrow> (1 / 2 < py_round x 3) = (1 / 2 < x)"
proof (cases "x \<le> 1 / 2")
  case True
  then have "py_round x 3 \<le> 1 / 2" using py_round_le [of x 500] by simp
  with True show ?thesis by simp
next
  case False
  assume "x \<le> 1 / 2 \<or> 501 / 1000 \<le> x"
  with False have "501 / 1000 \<le> x" by simp
  then have "501 / 1000 \<le> py_round x 3" using py_round_ge [of 501 x] by simp
  with False show ?thesis by simp
qed

lemma find_idiot_you:
  "find_toxic_patterns pattern_detector (clean_content ''idiot you'') = Inr [([''idiot'', ''you''], 4)]"
  by code_simp

lemma names_idiot_you: "matched_names [([''idiot'', ''you''], 4)] = [''harassment'']"
  by (simp add: matched_names_def matched_def pattern_categories_def occurrences_def)

subsection \<open>The pattern score\<close>

text \<open>
  Claim C4. In the pattern path every match occurrence adds the fixed severity weight of
  its category to the accumulated weight of that category (\<open>accumulated\<close>); the score
  is the arithmetic mean of the accumulated weights over exactly the categories that
  matched, at most 1 (\<open>mean_score\<close>), and the categories are the matched ones, sorted;
  with no match the score is exactly 0 and the list of categories is empty.
\<close>

theorem pattern_score_is_mean:
  "calculate_toxicity_score pattern_detector ms = Inr (mean_score ms, matched_names ms) \<and>
   calculate_toxicity_score pattern_detector [] = Inr (0, [])"
proof
  show "calculate_toxicity_score pattern_detector ms = Inr (mean_score ms, matched_names ms)"
    by (rule calculate_spec)
  show "calculate_toxicity_score pattern_detector [] = Inr (0, [])"
    by (simp add: calculate_toxicity_score_def)
qed

text \<open>
  Claim C10. In the pattern path, for every input, a verdict is returned whose list of
  categories is non-empty exactly when its (rounded) score is positive, and whenever the
  list is non-empty the score is at least 0.3, the least severity weight.
\<close>

theorem pattern_categories_iff_positive:
  "\<exists>v. fst (check_toxicity_rule_based pattern_detector now content) = Inr v \<and>
       ((categories v \<noteq> []) = (0 < toxicity_score v)) \<and>
       (categories v \<noteq> [] \<longrightarrow> 3 / 10 \<le> toxicity_score v)"
proof -
  obtain ms where ms: "find_toxic_patterns pattern_detector (clean_content content) = Inr ms"
    using find_pattern by blast
  show ?thesis
  proof (cases "matched_count ms = 0")
    case True
    then show ?thesis
      by (simp add: rule_based_pattern [OF ms] matched_names_empty mean_score_eq py_round_0)
  next
    case False
    then have "0 < matched_count ms" by simp
    then have "3 / 10 \<le> mean_score ms" by (rule mean_score_floor)
    then have "3 / 10 \<le> py_round (mean_score ms) 3" by (rule py_round_floor)
    with False show ?thesis
      by (simp add: rule_based_pattern [OF ms] matched_names_empty)
  qed
qed

theorem pattern_categories_iff_positive_witness:
  "\<exists>v. fst (check_toxicity_rule_based pattern_detector [] ''idiot you'') = Inr v \<and>
       categories v \<noteq> [] \<and> 3 / 10 \<le> toxicity_score v"
  using pattern_categories_iff_positive [of "[]" "''idiot you''"]
  by (auto simp: rule_based_pattern [OF find_idiot_you] names_idiot_you)

subsection \<open>Control flow: validation, fallback and the state of the detector\<close>

lemma score_categories_error:
  "score_categories cats weights i st = Inl exn \<Longrightarrow> exn \<noteq> ValueError"
  by (induction cats weights i st rule: score_categories.induct)
     (auto split: if_splits option.splits)

lemma score_matches_error:
  "score_matches cats weights ms st = Inl exn \<Longrightarrow> exn \<noteq> ValueError"
  by (induction cats weights ms st rule: score_matches.induct)
     (auto split: sum.splits dest: score_categories_error)

lemma rule_based_error: "fst (check_toxicity_rule_based self now s) \<noteq> Inl ValueError"
  by (auto simp: check_toxicity_rule_based_def Let_def find_toxic_patterns_def
      calculate_toxicity_score_def
      split: sum.splits option.splits category_table.splits if_splits prod.splits
      dest: score_matches_error)

lemma rule_based_trace: "snd (check_toxicity_rule_based self now s) = ([Enter_rule_based], self)"
  by (simp add: check_toxicity_rule_based_def Let_def)

lemma rule_based_triple:
  "check_toxicity_rule_based self now s =
     (fst (check_toxicity_rule_based self now s), [Enter_rule_based], self)"
  using rule_based_trace [of self now s] by (cases "check_toxicity_rule_based self now s") simp

lemma ml_error: "fst (check_toxicity_ml self infer now s) \<noteq> Inl ValueError"
  using rule_based_error [of self now s]
  by (auto simp: check_toxicity_ml_def Let_def split: sum.splits prod.splits)

lemma ml_trace: "hd (fst (snd (check_toxicity_ml self infer now s))) = Enter_ml"
  by (auto simp: check_toxicity_ml_def Let_def split: sum.splits prod.splits)

lemma ml_state: "snd (snd (check_toxicity_ml self infer now s)) = self"
  using rule_based_trace [of self now s]
  by (auto simp: check_toxicity_ml_def Let_def split: sum.splits prod.splits)

lemma ml_failure:
  "infer (clean_content_for_ml s) (case max_length self of None \<Rightarrow> 512 | Some n \<Rightarrow> n) = Inl exn \<Longrightarrow>
   check_toxicity_ml self infer now s =
     (fst (check_toxicity_rule_based self now s),
      [Enter_ml, Log_error ''ML toxicity detection failed'',
       Log_info ''Falling back to rule-based detection for this request'', Enter_rule_based],
      self)"
  using rule_based_trace [of self now s]
  by (cases "check_toxicity_rule_based self now s") (simp add: check_toxicity_ml_def Let_def)

lemma check_state: "snd (snd (check_toxicity self infer now c)) = self"
  by (simp add: check_toxicity_def ml_state rule_based_trace)

lemma step_state: "snd (step self c) = self"
proof -
  obtain infer now x where c: "c = (infer, now, x)" by (cases c)
  obtain r tr self' where k: "check_toxicity self infer now x = (r, tr, self')"
    by (cases "check_toxicity self infer now x")
  from check_state [of self infer now x] k have "self' = self" by simp
  then show ?thesis by (simp add: step_def c k)
qed

lemma step_result:
  "fst (step self (infer, now, c)) =
     (fst (check_toxicity self infer now c), fst (snd (check_toxicity self infer now c)))"
  by (simp add: step_def split: prod.splits)

lemma run_state: "snd (run self cs) = self"
proof (induction cs)
  case Nil
  show ?case by simp
next
  case (Cons c cs)
  obtain r where r: "step self c = (r, self)"
    using step_state [of self c] by (cases "step self c") simp
  obtain rs where rs: "run self cs = (rs, self)"
    using Cons by (cases "run self cs") simp
  show ?case by (simp add: r rs)
qed

lemma run_results:
  "fst (run self cs) = map (\<lambda>c. fst (step self c)) cs"
proof (induction cs)
  case Nil
  show ?case by simp
next
  case (Cons c cs)
  obtain r where r: "step self c = (r, self)"
    using step_state [of self c] by (cases "step self c") simp
  obtain rs where rs: "run self cs = (rs, self)"
    using run_state [of self cs] by (cases "run self cs") simp
  from Cons show ?case by (simp add: r rs)
qed

lemma pattern_mode_trace:
  "\<not> use_ml_model self \<Longrightarrow> Enter_ml \<notin> set (fst (snd (check_toxicity self infer now c)))"
  by (simp add: check_toxicity_def rule_based_trace)

lemma pattern_mode_call:
  "check_toxicity pattern_detector infer now c = (Inl ValueError, [], pattern_detector) \<or>
   (\<exists>v. check_toxicity pattern_detector infer now c = (Inr v, [Enter_rule_based], pattern_detector) \<and>
        detector_version v = ''1.0.0-rule-based'' \<and> model_used v = ''rule-based-patterns'')"
proof (cases "\<not> truthy c \<or> \<not> is_str c")
  case True
  then show ?thesis by (simp add: check_toxicity_def)
next
  case False
  obtain ms where ms: "find_toxic_patterns pattern_detector (clean_content (str_of c)) = Inr ms"
    using find_pattern by blast
  have "check_toxicity pattern_detector infer now c =
          check_toxicity_rule_based pattern_detector now (str_of c)"
    using False by (simp add: check_toxicity_def pattern_detector_fields)
  also have "\<dots> = (fst (check_toxicity_rule_based pattern_detector now (str_of c)),
                     [Enter_rule_based], pattern_detector)"
    by (rule rule_based_triple)
  finally show ?thesis by (simp add: rule_based_pattern [OF ms])
qed

lemma pattern_detector_record:
  "pattern_detector =
     \<lparr>use_ml_model = False, compiled_patterns = Some toxic_patterns,
      toxicity_categories = Some (Rule_categories rule_categories),
      severity_weights = Some rule_weights, optimal_threshold = None, max_length = None,
      model_name_loaded = None\<rparr>"
  by (simp add: pattern_detector_def initialize_rule_based_def blank_def)


lemma find_c1:
  "find_toxic_patterns pattern_detector (clean_content ''you are an idiot and a moron'') = Inr []"
  by code_simp

lemma find_c1_reordered:
  "find_toxic_patterns pattern_detector (clean_content ''an idiot and a moron you are'')
   = Inr [([''idiot'', ''you''], 4)]"
  by code_simp

lemma mean_idiot_you: "mean_score [([''idiot'', ''you''], 4)] = 7 / 10"
  by (simp add: mean_score_def matched_def pattern_categories_def occurrences_def accumulated_def)

lemma mean_empty: "mean_score [] = 0" "matched_names [] = []"
  by (simp_all add: mean_score_def matched_names_def matched_def pattern_categories_def occurrences_def)

lemma py_round_values:
  "py_round (7 / 10) 3 = 7 / 10" "py_round (3 / 10) 3 = 3 / 10" "py_round (1 / 2) 3 = 1 / 2"
  by (simp_all add: py_round_def round_half_even_def)

text \<open>
  The text of claim C1 matches no pattern: the harassment pattern needs one of its
  keywords to be followed, later in the text, by \<^verbatim>\<open>person\<close>, \<^verbatim>\<open>people\<close> or
  \<^verbatim>\<open>you\<close>, and here \<^verbatim>\<open>you\<close> comes first. So the claim as stated fails.
\<close>

theorem idiot_and_moron_no_match_counterexample:
  "\<not> (\<exists>v. fst (check_toxicity_rule_based pattern_detector [] ''you are an idiot and a moron'') = Inr v
         \<and> categories v \<noteq> [] \<and> ''harassment'' \<in> set (categories v) \<and> is_toxic v)"
  by (simp add: rule_based_pattern [OF find_c1] mean_empty)

text \<open>
  Claim C1 (amended). In the pattern path the text \<^verbatim>\<open>you are an idiot and a moron\<close>
  yields score 0, no category and \<open>is_toxic = False\<close>; with the same words in the order
  \<^verbatim>\<open>an idiot and a moron you are\<close> the harassment pattern matches once, and the verdict
  has the category \<^verbatim>\<open>harassment\<close>, score 0.7 and \<open>is_toxic = True\<close>.
\<close>

theorem idiot_and_moron_verdict:
  "fst (check_toxicity_rule_based pattern_detector now ''you are an idiot and a moron'') =
     Inr \<lparr>is_toxic = False, toxicity_score = 0, confidence = 3 / 10, categories = [],
          content_length = 28, timestamp = now, detector_version = ''1.0.0-rule-based'',
          model_used = ''rule-based-patterns'', threshold_used = None, raw_score = None\<rparr> \<and>
   fst (check_toxicity_rule_based pattern_detector now ''an idiot and a moron you are'') =
     Inr \<lparr>is_toxic = True, toxicity_score = 7 / 10, confidence = 1 / 2, categories = [''harassment''],
          content_length = 28, timestamp = now, detector_version = ''1.0.0-rule-based'',
          model_used = ''rule-based-patterns'', threshold_used = None, raw_score = None\<rparr>"
  by (simp add: rule_based_pattern [OF find_c1] rule_based_pattern [OF find_c1_reordered]
      mean_empty mean_idiot_you names_idiot_you py_round_0 py_round_values)

text \<open>
  Claim C2 says that a failure of the classifier during a call yields a pattern verdict.
  The code attempts it, but a detector constructed in classifier mode never ran
  \<^verbatim>\<open>_initialize_rule_based\<close>: it has no \<^verbatim>\<open>compiled_patterns\<close>, and the fallback raises
  \<open>AttributeError\<close>, which leaves \<^verbatim>\<open>check_toxicity\<close>. This holds for every detector
  that the constructor builds in classifier mode and every non-empty text.
\<close>

theorem classifier_failure_raises:
  "transformers_available e \<Longrightarrow> load_model e = Inr l \<Longrightarrow> content \<noteq> [] \<Longrightarrow>
   infer (clean_content_for_ml content) (case max_length (init e True) of None \<Rightarrow> 512 | Some n \<Rightarrow> n)
     = Inl exn \<Longrightarrow>
   check_toxicity (init e True) infer now (PyStr content) =
     (Inl AttributeError,
      [Enter_ml, Log_error ''ML toxicity detection failed'',
       Log_info ''Falling back to rule-based detection for this request'', Enter_rule_based],
      init e True)"
proof -
  assume e: "transformers_available e" "load_model e = Inr l" and c: "content \<noteq> []"
    and f: "infer (clean_content_for_ml content)
              (case max_length (init e True) of None \<Rightarrow> 512 | Some n \<Rightarrow> n) = Inl exn"
  from init_ml [OF e] have ml: "use_ml_model (init e True)"
    and absent: "compiled_patterns (init e True) = None" by simp_all
  show ?thesis
    using c ml f by (simp add: check_toxicity_def ml_failure rb_absent [OF absent])
qed

theorem classifier_failure_raises_witness:
  "check_toxicity (init hub_env True) always_fails ''2024-01-01T00:00:00'' (PyStr ''hello'') =
     (Inl AttributeError,
      [Enter_ml, Log_error ''ML toxicity detection failed'',
       Log_info ''Falling back to rule-based detection for this request'', Enter_rule_based],
      init hub_env True)"
  by (rule classifier_failure_raises [where l = "\<lparr>loaded_threshold = None, loaded_max_length = None, loaded_name = None\<rparr>" and exn = InferenceError])
     (simp_all add: hub_env_def always_fails_def)

lemma find_blank: "find_toxic_patterns pattern_detector (clean_content ''   '') = Inr []"
  by code_simp

text \<open>
  A text of three spaces passes the guard of \<^verbatim>\<open>check_toxicity\<close> and is scored, so
  claim C7 as stated fails.
\<close>

theorem whitespace_accepted_counterexample:
  "check_toxicity pattern_detector always_fails [] (PyStr ''   '') =
     (Inr \<lparr>is_toxic = False, toxicity_score = 0, confidence = 3 / 10, categories = [],
           content_length = 3, timestamp = [], detector_version = ''1.0.0-rule-based'',
           model_used = ''rule-based-patterns'', threshold_used = None, raw_score = None\<rparr>,
      [Enter_rule_based], pattern_detector)"
proof -
  have "check_toxicity pattern_detector always_fails [] (PyStr ''   '')
        = (fst (check_toxicity_rule_based pattern_detector [] ''   ''), [Enter_rule_based],
           pattern_detector)"
    using rule_based_trace [of pattern_detector "[]" "''   ''"]
    by (cases "check_toxicity_rule_based pattern_detector [] ''   ''")
       (simp add: check_toxicity_def pattern_detector_fields)
  then show ?thesis
    by (simp add: rule_based_pattern [OF find_blank] mean_empty py_round_0 py_round_values)
qed

text \<open>
  Claim C7 (amended). \<^verbatim>\<open>check_toxicity\<close> raises \<open>ValueError\<close> exactly when the input is
  not a string or is the empty string, and then neither scorer is entered (the trace is
  empty); every other input, a string of whitespace too, enters the scorer of the
  detector's mode. In particular \<^verbatim>\<open>None\<close> and the empty string are rejected.
\<close>

theorem invalid_input_iff:
  "((fst (check_toxicity self infer now content) = Inl ValueError)
      = (\<not> (is_str content \<and> str_of content \<noteq> []))) \<and>
   (\<not> (is_str content \<and> str_of content \<noteq> []) \<longrightarrow>
      fst (snd (check_toxicity self infer now content)) = []) \<and>
   (is_str content \<and> str_of content \<noteq> [] \<longrightarrow>
      hd (fst (snd (check_toxicity self infer now content))) \<in> {Enter_ml, Enter_rule_based}) \<and>
   check_toxicity self infer now PyNone = (Inl ValueError, [], self) \<and>
   check_toxicity self infer now (PyStr []) = (Inl ValueError, [], self)"
proof -
  have valid: "(\<not> truthy content \<or> \<not> is_str content) = (\<not> (is_str content \<and> str_of content \<noteq> []))"
    by (cases content) simp_all
  have none: "check_toxicity self infer now PyNone = (Inl ValueError, [], self)"
    and empty: "check_toxicity self infer now (PyStr []) = (Inl ValueError, [], self)"
    by (simp_all add: check_toxicity_def)
  show ?thesis
  proof (cases "is_str content \<and> str_of content \<noteq> []")
    case True
    then have ok: "\<not> (\<not> truthy content \<or> \<not> is_str content)" using valid by simp
    have "fst (check_toxicity self infer now content) \<noteq> Inl ValueError"
      using ok rule_based_error [of self now "str_of content"] ml_error [of self infer now "str_of content"]
      by (simp add: check_toxicity_def)
    moreover have "hd (fst (snd (check_toxicity self infer now content))) \<in> {Enter_ml, Enter_rule_based}"
      using ok ml_trace [of self infer now "str_of content"] rule_based_trace [of self now "str_of content"]
      by (simp add: check_toxicity_def)
    ultimately show ?thesis using True none empty by simp
  next
    case False
    then have bad: "\<not> truthy content \<or> \<not> is_str content" using valid by simp
    then have "check_toxicity self infer now content = (Inl ValueError, [], self)"
      by (simp add: check_toxicity_def)
    then show ?thesis using False none empty by auto
  qed
qed

theorem invalid_input_iff_witness:
  "fst (check_toxicity pattern_detector always_fails [] (PyInt 7)) = Inl ValueError \<and>
   fst (snd (check_toxicity pattern_detector always_fails [] (PyInt 7))) = [] \<and>
   fst (check_toxicity pattern_detector always_fails [] (PyStr ''hi'')) \<noteq> Inl ValueError \<and>
   hd (fst (snd (check_toxicity pattern_detector always_fails [] (PyStr ''hi'')))) \<in> {Enter_ml, Enter_rule_based}"
  using invalid_input_iff [of pattern_detector always_fails "[]" "PyInt 7"]
    invalid_input_iff [of pattern_detector always_fails "[]" "PyStr ''hi''"]
  by simp

text \<open>
  Claim C8. A call in classifier mode whose classifier fails falls back for that call
  and returns the detector object unchanged: on the object that the call leaves, the
  next call enters the classifier path again, and when its classifier answers, the
  verdict is the classifier's. When loading the model fails during construction, the
  constructor gives the pattern detector (\<^verbatim>\<open>use_ml_model\<close> cleared and the three pattern
  tables assigned), and every call of any sequence of calls on it, whatever the
  classifier would do, either rejects its input or returns a pattern verdict without
  entering the classifier path, and leaves that detector.
\<close>

theorem fallback_scope:
  "(use_ml_model self \<and> s \<noteq> [] \<and>
    infer (clean_content_for_ml s) (case max_length self of None \<Rightarrow> 512 | Some n \<Rightarrow> n) = Inl exn \<longrightarrow>
      step self (infer, now, PyStr s) =
        ((fst (check_toxicity_rule_based self now s),
          [Enter_ml, Log_error ''ML toxicity detection failed'',
           Log_info ''Falling back to rule-based detection for this request'', Enter_rule_based]),
         self) \<and>
      use_ml_model (snd (step self (infer, now, PyStr s))) \<and>
      (\<forall>infer' now' s'. s' \<noteq> [] \<longrightarrow>
         hd (snd (fst (step (snd (step self (infer, now, PyStr s))) (infer', now', PyStr s')))) = Enter_ml \<and>
         (\<forall>p. infer' (clean_content_for_ml s') (case max_length self of None \<Rightarrow> 512 | Some n \<Rightarrow> n) = Inr p \<longrightarrow>
            (\<exists>v. step (snd (step self (infer, now, PyStr s))) (infer', now', PyStr s') =
                   ((Inr v, [Enter_ml, Log_debug ''Using toxicity threshold'']), self) \<and>
                 detector_version v = ''2.0.5-ml-fast'' \<and>
                 toxicity_score v = py_round (max 0 (min 1 p)) 3 \<and>
                 is_toxic v = ((case optimal_threshold self of None \<Rightarrow> 1 / 2 | Some t \<Rightarrow> t)
                                 \<le> max 0 (min 1 p)))))) \<and>
   (transformers_available e \<and> load_model e = Inl exn' \<longrightarrow>
      init e True =
        \<lparr>use_ml_model = False, compiled_patterns = Some toxic_patterns,
         toxicity_categories = Some (Rule_categories rule_categories),
         severity_weights = Some rule_weights, optimal_threshold = None, max_length = None,
         model_name_loaded = None\<rparr> \<and>
      (\<forall>cs. snd (run (init e True) cs) = init e True \<and>
            \<not> use_ml_model (snd (run (init e True) cs)) \<and>
            length (fst (run (init e True) cs)) = length cs \<and>
            (\<forall>r \<in> set (fst (run (init e True) cs)).
               Enter_ml \<notin> set (snd r) \<and>
               (r = (Inl ValueError, []) \<or>
                (\<exists>v. r = (Inr v, [Enter_rule_based]) \<and>
                     detector_version v = ''1.0.0-rule-based'' \<and>
                     model_used v = ''rule-based-patterns'')))))"
proof (intro conjI impI)
  assume h: "use_ml_model self \<and> s \<noteq> [] \<and>
    infer (clean_content_for_ml s) (case max_length self of None \<Rightarrow> 512 | Some n \<Rightarrow> n) = Inl exn"
  then have ml: "use_ml_model self" by simp
  from h show first: "step self (infer, now, PyStr s) =
        ((fst (check_toxicity_rule_based self now s),
          [Enter_ml, Log_error ''ML toxicity detection failed'',
           Log_info ''Falling back to rule-based detection for this request'', Enter_rule_based]),
         self)"
    by (simp add: step_def check_toxicity_def ml_failure)
  from ml show "use_ml_model (snd (step self (infer, now, PyStr s)))" by (simp add: step_state)
  show "\<forall>infer' now' s'. s' \<noteq> [] \<longrightarrow>
         hd (snd (fst (step (snd (step self (infer, now, PyStr s))) (infer', now', PyStr s')))) = Enter_ml \<and>
         (\<forall>p. infer' (clean_content_for_ml s') (case max_length self of None \<Rightarrow> 512 | Some n \<Rightarrow> n) = Inr p \<longrightarrow>
            (\<exists>v. step (snd (step self (infer, now, PyStr s))) (infer', now', PyStr s') =
                   ((Inr v, [Enter_ml, Log_debug ''Using toxicity threshold'']), self) \<and>
                 detector_version v = ''2.0.5-ml-fast'' \<and>
                 toxicity_score v = py_round (max 0 (min 1 p)) 3 \<and>
                 is_toxic v = ((case optimal_threshold self of None \<Rightarrow> 1 / 2 | Some t \<Rightarrow> t)
                                 \<le> max 0 (min 1 p))))"
  proof (intro allI impI conjI)
    fix infer' :: inference and now' :: string and s' :: string
    assume s': "s' \<noteq> []"
    have call: "check_toxicity self infer' now' (PyStr s') = check_toxicity_ml self infer' now' s'"
      using ml s' by (simp add: check_toxicity_def)
    show "hd (snd (fst (step (snd (step self (infer, now, PyStr s))) (infer', now', PyStr s')))) = Enter_ml"
      by (simp add: step_state step_result call ml_trace)
    fix p
    assume p: "infer' (clean_content_for_ml s') (case max_length self of None \<Rightarrow> 512 | Some n \<Rightarrow> n) = Inr p"
    have "\<exists>v. check_toxicity_ml self infer' now' s' =
                (Inr v, [Enter_ml, Log_debug ''Using toxicity threshold''], self) \<and>
              detector_version v = ''2.0.5-ml-fast'' \<and>
              toxicity_score v = py_round (max 0 (min 1 p)) 3 \<and>
              is_toxic v = ((case optimal_threshold self of None \<Rightarrow> 1 / 2 | Some t \<Rightarrow> t)
                              \<le> max 0 (min 1 p))"
      using p by (simp add: check_toxicity_ml_def Let_def)
    then obtain v where k: "check_toxicity_ml self infer' now' s' =
                (Inr v, [Enter_ml, Log_debug ''Using toxicity threshold''], self)"
      and d: "detector_version v = ''2.0.5-ml-fast''"
      and t: "toxicity_score v = py_round (max 0 (min 1 p)) 3"
      and i: "is_toxic v = ((case optimal_threshold self of None \<Rightarrow> 1 / 2 | Some t \<Rightarrow> t)
                              \<le> max 0 (min 1 p))"
      by blast
    have st: "snd (step self (infer, now, PyStr s)) = self" by (rule step_state)
    have "step self (infer', now', PyStr s') =
            ((Inr v, [Enter_ml, Log_debug ''Using toxicity threshold'']), self)"
      by (simp add: step_def call k)
    with d t i show "\<exists>v. step (snd (step self (infer, now, PyStr s))) (infer', now', PyStr s') =
                   ((Inr v, [Enter_ml, Log_debug ''Using toxicity threshold'']), self) \<and>
                 detector_version v = ''2.0.5-ml-fast'' \<and>
                 toxicity_score v = py_round (max 0 (min 1 p)) 3 \<and>
                 is_toxic v = ((case optimal_threshold self of None \<Rightarrow> 1 / 2 | Some t \<Rightarrow> t)
                                 \<le> max 0 (min 1 p))"
      unfolding st by blast
  qed
next
  assume h: "transformers_available e \<and> load_model e = Inl exn'"
  then have p: "init e True = pattern_detector" by (simp add: init_pattern)
  show "init e True =
        \<lparr>use_ml_model = False, compiled_patterns = Some toxic_patterns,
         toxicity_categories = Some (Rule_categories rule_categories),
         severity_weights = Some rule_weights, optimal_threshold = None, max_length = None,
         model_name_loaded = None\<rparr>"
    unfolding p by (rule pattern_detector_record)
  show "\<forall>cs. snd (run (init e True) cs) = init e True \<and>
            \<not> use_ml_model (snd (run (init e True) cs)) \<and>
            length (fst (run (init e True) cs)) = length cs \<and>
            (\<forall>r \<in> set (fst (run (init e True) cs)).
               Enter_ml \<notin> set (snd r) \<and>
               (r = (Inl ValueError, []) \<or>
                (\<exists>v. r = (Inr v, [Enter_rule_based]) \<and>
                     detector_version v = ''1.0.0-rule-based'' \<and>
                     model_used v = ''rule-based-patterns'')))"
  proof (intro allI conjI ballI)
    fix cs
    show "snd (run (init e True) cs) = init e True" by (rule run_state)
    show "\<not> use_ml_model (snd (run (init e True) cs))"
      by (simp add: run_state p pattern_detector_fields)
    show "length (fst (run (init e True) cs)) = length cs" by (simp add: run_results)
    fix r
    assume "r \<in> set (fst (run (init e True) cs))"
    then obtain c where r: "r = fst (step pattern_detector c)" by (auto simp: run_results p)
    obtain infer' now' x where c: "c = (infer', now', x)" by (cases c)
    have shape: "r = (Inl ValueError, []) \<or>
          (\<exists>v. r = (Inr v, [Enter_rule_based]) \<and>
               detector_version v = ''1.0.0-rule-based'' \<and>
               model_used v = ''rule-based-patterns'')"
      using pattern_mode_call [of infer' now' x] unfolding r c step_result by auto
    then show "r = (Inl ValueError, []) \<or>
          (\<exists>v. r = (Inr v, [Enter_rule_based]) \<and>
               detector_version v = ''1.0.0-rule-based'' \<and>
               model_used v = ''rule-based-patterns'')" .
    from shape show "Enter_ml \<notin> set (snd r)" by auto
  qed
qed

theorem fallback_scope_witness:
  "step (init hub_env True) (always_fails, [], PyStr ''hi'') =
     ((Inl AttributeError,
       [Enter_ml, Log_error ''ML toxicity detection failed'',
        Log_info ''Falling back to rule-based detection for this request'', Enter_rule_based]),
      init hub_env True) \<and>
   (\<exists>v. step (snd (step (init hub_env True) (always_fails, [], PyStr ''hi'')))
              (always_returns (1 / 2), [], PyStr ''hi'') =
          ((Inr v, [Enter_ml, Log_debug ''Using toxicity threshold'']), init hub_env True) \<and>
        detector_version v = ''2.0.5-ml-fast'' \<and> is_toxic v) \<and>
   init broken_env True = pattern_detector \<and>
   snd (run (init broken_env True) [(always_returns 1, [], PyStr ''hi'')]) = pattern_detector \<and>
   Enter_ml \<notin> set (snd (hd (fst (run (init broken_env True) [(always_returns 1, [], PyStr ''hi'')]))))"
proof -
  have ml: "use_ml_model (init hub_env True)"
    and absent: "compiled_patterns (init hub_env True) = None"
    and len: "max_length (init hub_env True) = None"
    and thr: "optimal_threshold (init hub_env True) = None"
    by (simp_all add: init_def hub_env_def initialize_ml_model_def blank_def Let_def)
  have f: "always_fails (clean_content_for_ml ''hi'')
             (case max_length (init hub_env True) of None \<Rightarrow> 512 | Some n \<Rightarrow> n) = Inl InferenceError"
    by (simp add: always_fails_def)
  have b: "transformers_available broken_env \<and> load_model broken_env = Inl InferenceError"
    by (simp add: broken_env_def)
  note t = fallback_scope [of "init hub_env True" "''hi''" always_fails InferenceError "[]" broken_env InferenceError]
  from t ml f have a: "step (init hub_env True) (always_fails, [], PyStr ''hi'') =
        ((fst (check_toxicity_rule_based (init hub_env True) [] ''hi''),
          [Enter_ml, Log_error ''ML toxicity detection failed'',
           Log_info ''Falling back to rule-based detection for this request'', Enter_rule_based]),
         init hub_env True)"
    and q: "\<And>infer' now' s' p. s' \<noteq> [] \<Longrightarrow>
         infer' (clean_content_for_ml s') (case max_length (init hub_env True) of None \<Rightarrow> 512 | Some n \<Rightarrow> n) = Inr p \<Longrightarrow>
         \<exists>v. step (snd (step (init hub_env True) (always_fails, [], PyStr ''hi''))) (infer', now', PyStr s') =
                   ((Inr v, [Enter_ml, Log_debug ''Using toxicity threshold'']), init hub_env True) \<and>
                 detector_version v = ''2.0.5-ml-fast'' \<and>
                 toxicity_score v = py_round (max 0 (min 1 p)) 3 \<and>
                 is_toxic v = ((case optimal_threshold (init hub_env True) of None \<Rightarrow> 1 / 2 | Some t \<Rightarrow> t)
                                 \<le> max 0 (min 1 p))"
    by blast+
  from a have first: "step (init hub_env True) (always_fails, [], PyStr ''hi'') =
     ((Inl AttributeError,
       [Enter_ml, Log_error ''ML toxicity detection failed'',
        Log_info ''Falling back to rule-based detection for this request'', Enter_rule_based]),
      init hub_env True)"
    by (simp add: rb_absent [OF absent])
  have "\<exists>v. step (snd (step (init hub_env True) (always_fails, [], PyStr ''hi'')))
              (always_returns (1 / 2), [], PyStr ''hi'') =
          ((Inr v, [Enter_ml, Log_debug ''Using toxicity threshold'']), init hub_env True) \<and>
        detector_version v = ''2.0.5-ml-fast'' \<and>
        toxicity_score v = py_round (max 0 (min 1 (1 / 2))) 3 \<and>
        is_toxic v = ((case optimal_threshold (init hub_env True) of None \<Rightarrow> 1 / 2 | Some t \<Rightarrow> t)
                        \<le> max 0 (min 1 (1 / 2)))"
    by (rule q) (simp_all add: always_returns_def)
  then have second: "\<exists>v. step (snd (step (init hub_env True) (always_fails, [], PyStr ''hi'')))
              (always_returns (1 / 2), [], PyStr ''hi'') =
          ((Inr v, [Enter_ml, Log_debug ''Using toxicity threshold'']), init hub_env True) \<and>
        detector_version v = ''2.0.5-ml-fast'' \<and> is_toxic v"
    by (auto simp: thr)
  from t b have s1: "init broken_env True =
        \<lparr>use_ml_model = False, compiled_patterns = Some toxic_patterns,
         toxicity_categories = Some (Rule_categories rule_categories),
         severity_weights = Some rule_weights, optimal_threshold = None, max_length = None,
         model_name_loaded = None\<rparr>"
    and s2: "\<And>cs. snd (run (init broken_env True) cs) = init broken_env True"
    and s3: "\<And>cs r. r \<in> set (fst (run (init broken_env True) cs)) \<Longrightarrow> Enter_ml \<notin> set (snd r)"
    by blast+
  from s1 have third: "init broken_env True = pattern_detector"
    by (simp add: pattern_detector_record)
  have single: "fst (run (init broken_env True) [(always_returns 1, [], PyStr ''hi'')])
                = [fst (step (init broken_env True) (always_returns 1, [], PyStr ''hi''))]"
    by (simp split: prod.splits)
  have "hd (fst (run (init broken_env True) [(always_returns 1, [], PyStr ''hi'')]))
        \<in> set (fst (run (init broken_env True) [(always_returns 1, [], PyStr ''hi'')]))"
    unfolding single by simp
  then have s4: "Enter_ml \<notin> set (snd (hd (fst (run (init broken_env True) [(always_returns 1, [], PyStr ''hi'')]))))"
    by (rule s3)
  from s2 [of "[(always_returns 1, [], PyStr ''hi'')]"] third
  have fourth: "snd (run (init broken_env True) [(always_returns 1, [], PyStr ''hi'')]) = pattern_detector"
    by simp
  from first second third fourth s4 show ?thesis by blast
qed

subsection \<open>The classifier path\<close>

lemma clamp_order:
  "f \<le> 1 \<Longrightarrow>
   min 1 (if ext then max (max (min 1 (max a 0)) b) f else max (min 1 (max a 0)) b)
   = (if ext then max (max 0 (min 1 (max a b))) f else max 0 (min 1 (max a b)))" for a b f :: rat
  by (simp add: min_def max_def)

lemma ml_confidence_spec: "ml_confidence s t = spec_confidence_fl s t"
  unfolding ml_confidence_def spec_confidence_fl_def Let_def
  using fl_85_le by (rule clamp_order)

lemma spec_confidence_fl_extreme:
  "s \<le> fl (1 / 10) \<or> fl (9 / 10) \<le> s \<Longrightarrow> fl (85 / 100) \<le> spec_confidence_fl s t"
  by (auto simp: spec_confidence_fl_def Let_def)

lemma py_round_85: "85 / 100 \<le> x \<Longrightarrow> 85 / 100 \<le> py_round x 3"
  using py_round_ge [of 850 x] by simp

lemma py_round_multiple: "\<exists>k::int. py_round x 3 = of_int k / 1000"
  by (simp add: py_round_def)

lemma ml_success:
  "infer (clean_content_for_ml content) (case max_length self of None \<Rightarrow> 512 | Some n \<Rightarrow> n) = Inr p \<Longrightarrow>
   fst (check_toxicity_ml self infer now content) =
     Inr \<lparr>is_toxic = ((case optimal_threshold self of None \<Rightarrow> 1 / 2 | Some t \<Rightarrow> t) \<le> max 0 (min 1 p)),
          toxicity_score = py_round (max 0 (min 1 p)) 3,
          confidence = py_round (spec_confidence_fl (max 0 (min 1 p))
                         (case optimal_threshold self of None \<Rightarrow> 1 / 2 | Some t \<Rightarrow> t)) 3,
          categories = analyze_toxicity_categories_ml (clean_content_for_ml content) (max 0 (min 1 p)),
          content_length = length content,
          timestamp = now,
          detector_version = ''2.0.5-ml-fast'',
          model_used = (case model_name_loaded self of None \<Rightarrow> ''toxicity-model-fast'' | Some n \<Rightarrow> n),
          threshold_used = Some (case optimal_threshold self of None \<Rightarrow> 1 / 2 | Some t \<Rightarrow> t),
          raw_score = Some (py_round (max 0 (min 1 p)) 4)\<rparr>"
  by (simp add: check_toxicity_ml_def Let_def ml_confidence_spec)

lemma hub_fields:
  "optimal_threshold (init hub_env True) = None" "max_length (init hub_env True) = None"
  "use_ml_model (init hub_env True)" "model_name_loaded (init hub_env True) = None"
  by (simp_all add: init_def hub_env_def initialize_ml_model_def blank_def Let_def)

lemma hub_returns:
  "always_returns p (clean_content_for_ml content)
     (case max_length (init hub_env True) of None \<Rightarrow> 512 | Some n \<Rightarrow> n) = Inr p"
  by (simp add: always_returns_def)

lemma hub_success:
  "fst (check_toxicity_ml (init hub_env True) (always_returns p) now content) =
     Inr \<lparr>is_toxic = (1 / 2 \<le> max 0 (min 1 p)),
          toxicity_score = py_round (max 0 (min 1 p)) 3,
          confidence = py_round (spec_confidence_fl (max 0 (min 1 p)) (1 / 2)) 3,
          categories = analyze_toxicity_categories_ml (clean_content_for_ml content) (max 0 (min 1 p)),
          content_length = length content,
          timestamp = now,
          detector_version = ''2.0.5-ml-fast'',
          model_used = ''toxicity-model-fast'',
          threshold_used = Some (1 / 2),
          raw_score = Some (py_round (max 0 (min 1 p)) 4)\<rparr>"
  using ml_success [where infer = "always_returns p" and self = "init hub_env True"
      and content = content and p = p and now = now, OF hub_returns]
  by (simp add: hub_fields)

lemma fl_dyadic:
  "fl (65 / 256) = 65 / 256" "fl (- (65 / 256)) = - (65 / 256)"
  "fl (65 / 128) = 65 / 128" "fl (63 / 128) = 63 / 128" "fl (193 / 256) = 193 / 256"
  using fl_exact [of "65 / 256" 65 "- 8"] fl_exact [of "- (65 / 256)" "- 65" "- 8"]
    fl_exact [of "65 / 128" 65 "- 7"] fl_exact [of "63 / 128" 63 "- 7"]
    fl_exact [of "193 / 256" 193 "- 8"]
  by (simp_all add: power_int_minus_divide)

lemma spec_confidence_fl_dyadic: "spec_confidence_fl (193 / 256) (1 / 2) = 65 / 128"
  by (simp add: spec_confidence_fl_def Let_def fl_dyadic fl_tenth fl_nine_tenths)

lemma spec_confidence_dyadic: "spec_confidence (193 / 256) (1 / 2) = 65 / 128"
  by (simp add: spec_confidence_def Let_def)

lemma round_dyadic: "py_round (65 / 128) 3 = 127 / 250"
  by code_simp

text \<open>
  The double 0.00075 with the threshold 0.5: the subtraction \<open>0.00075 - 0.5\<close> is rounded,
  the confidence becomes a little more than 0.9985 and the verdict carries 0.999, where
  the formula in exact arithmetic, rounded, gives 0.998.
\<close>

lemma fl_00075: "fl (75 / 100000) = 3458764513820541 / 4611686018427387904"
proof -
  have r: "round_half_even (864691128455135232 / 125) = 6917529027641082" by code_simp
  show ?thesis using fl_eval [of "75 / 100000" "- 11"] by (simp add: r power_int_minus_divide)
qed

lemma fl_00075_reduced: "fl (3 / 4000) = 3458764513820541 / 4611686018427387904"
  using fl_00075 by simp

lemma fl_00075_minus_half:
  "fl (- (2302384244699873411 / 4611686018427387904)) = - (8993688455858881 / 18014398509481984)"
proof -
  have r: "round_half_even (2302384244699873411 / 256) = 8993688455858881" by code_simp
  show ?thesis
    using fl_eval [of "- (2302384244699873411 / 4611686018427387904)" "- 2"]
    by (simp add: r power_int_minus_divide)
qed

lemma fl_half_minus_00075:
  "fl (2302384244699873411 / 4611686018427387904) = 8993688455858881 / 18014398509481984"
proof -
  have r: "round_half_even (2302384244699873411 / 256) = 8993688455858881" by code_simp
  show ?thesis
    using fl_eval [of "2302384244699873411 / 4611686018427387904" "- 2"]
    by (simp add: r power_int_minus_divide)
qed

lemma fl_09985:
  "fl (8993688455858881 / 9007199254740992) = 8993688455858881 / 9007199254740992"
  "fl (13510798882111 / 9007199254740992) = 13510798882111 / 9007199254740992"
  using fl_exact [of "8993688455858881 / 9007199254740992" 8993688455858881 "- 53"]
    fl_exact [of "13510798882111 / 9007199254740992" 13510798882111 "- 53"]
  by (simp_all add: power_int_minus_divide)

lemma spec_confidence_fl_00075:
  "spec_confidence_fl (3458764513820541 / 4611686018427387904) (1 / 2)
   = 8993688455858881 / 9007199254740992"
  by (simp add: spec_confidence_fl_def Let_def fl_00075_minus_half fl_half_minus_00075 fl_09985
      fl_tenth fl_nine_tenths fl_85_reduced)

lemma spec_confidence_00075:
  "spec_confidence (3458764513820541 / 4611686018427387904) (1 / 2)
   = 2302384244699873411 / 2305843009213693952"
  by (simp add: spec_confidence_def Let_def)

lemma round_09985:
  "py_round (8993688455858881 / 9007199254740992) 3 = 999 / 1000"
  "py_round (2302384244699873411 / 2305843009213693952) 3 = 998 / 1000"
  by code_simp+

lemma double_rounding_visible:
  "(\<exists>v. fst (check_toxicity_ml (init hub_env True) (always_returns (fl (75 / 100000))) [] ''hello'') = Inr v
        \<and> threshold_used v = Some (1 / 2) \<and> confidence v = 999 / 1000) \<and>
   py_round (spec_confidence (fl (75 / 100000)) (1 / 2)) 3 = 998 / 1000"
  by (simp add: hub_success fl_00075_reduced spec_confidence_fl_00075 spec_confidence_00075 round_09985)

text \<open>
  With the probability 193/256 = 0.75390625 and the threshold 0.5 every operation of the
  confidence is exact, in doubles as in the rationals: the formula of claim C5 gives
  65/128 = 0.5078125, and the verdict carries 0.508. The returned confidence is rounded,
  so the claim as stated fails.
\<close>

theorem confidence_rounded_counterexample:
  "(\<exists>v. fst (check_toxicity_ml (init hub_env True) (always_returns (193 / 256)) [] ''hello'') = Inr v
        \<and> threshold_used v = Some (1 / 2) \<and> confidence v = 508 / 1000) \<and>
   fl (193 / 256) = 193 / 256 \<and>
   spec_confidence (193 / 256) (1 / 2) = 65 / 128"
  by (simp add: hub_success spec_confidence_fl_dyadic spec_confidence_dyadic round_dyadic fl_dyadic)

text \<open>
  Claim C5 (amended). On the classifier path, for the clamped score \<open>s\<close> and the threshold
  \<open>t\<close>, the returned confidence is the value of the claim's formula, computed in double
  arithmetic (\<open>spec_confidence_fl\<close>), rounded to three decimals. It is at least 0.85
  whenever the test of the source holds (\<open>s\<close> at most the double 0.1 or at least the
  double 0.9), hence whenever the probability is a double and \<open>s \<le> 0.1\<close> or \<open>s \<ge> 0.9\<close> as
  decimals, in particular for the double 0.95.
\<close>

theorem classifier_confidence:
  "infer (clean_content_for_ml content) (case max_length self of None \<Rightarrow> 512 | Some n \<Rightarrow> n) = Inr p \<Longrightarrow>
   \<exists>v. fst (check_toxicity_ml self infer now content) = Inr v \<and>
       confidence v = py_round (spec_confidence_fl (max 0 (min 1 p))
                                 (case optimal_threshold self of None \<Rightarrow> 1 / 2 | Some t \<Rightarrow> t)) 3 \<and>
       rounded3 (spec_confidence_fl (max 0 (min 1 p))
                   (case optimal_threshold self of None \<Rightarrow> 1 / 2 | Some t \<Rightarrow> t)) (confidence v) \<and>
       (max 0 (min 1 p) \<le> fl (1 / 10) \<or> fl (9 / 10) \<le> max 0 (min 1 p) \<longrightarrow> 85 / 100 \<le> confidence v) \<and>
       (fl p = p \<and> (max 0 (min 1 p) \<le> 1 / 10 \<or> 9 / 10 \<le> max 0 (min 1 p)) \<longrightarrow> 85 / 100 \<le> confidence v) \<and>
       (p = fl (95 / 100) \<longrightarrow> 85 / 100 \<le> confidence v)"
proof -
  assume h: "infer (clean_content_for_ml content) (case max_length self of None \<Rightarrow> 512 | Some n \<Rightarrow> n) = Inr p"
  let ?s = "max 0 (min 1 p)" and ?t = "case optimal_threshold self of None \<Rightarrow> 1 / 2 | Some t \<Rightarrow> t"
  have ext: "?s \<le> fl (1 / 10) \<or> fl (9 / 10) \<le> ?s \<Longrightarrow> 85 / 100 \<le> py_round (spec_confidence_fl ?s ?t) 3"
    by (rule py_round_85_fl, rule spec_confidence_fl_extreme)
  have dec: "fl p = p \<and> (?s \<le> 1 / 10 \<or> 9 / 10 \<le> ?s) \<Longrightarrow> ?s \<le> fl (1 / 10) \<or> fl (9 / 10) \<le> ?s"
  proof -
    assume a: "fl p = p \<and> (?s \<le> 1 / 10 \<or> 9 / 10 \<le> ?s)"
    show ?thesis
    proof (cases "?s \<le> 1 / 10")
      case True
      then show ?thesis using tenth_le by blast
    next
      case False
      with a have "9 / 10 \<le> ?s" by blast
      then have "9 / 10 \<le> p" by (simp add: max_def min_def split: if_splits)
      with a have "fl (9 / 10) \<le> ?s" using double_nine_tenths by blast
      then show ?thesis by blast
    qed
  qed
  have "p = fl (95 / 100) \<Longrightarrow> ?s \<le> fl (1 / 10) \<or> fl (9 / 10) \<le> ?s"
    by (simp add: fl_95_reduced fl_nine_tenths)
  then have p95: "p = fl (95 / 100) \<Longrightarrow> 85 / 100 \<le> py_round (spec_confidence_fl ?s ?t) 3"
    using ext by blast
  obtain v where v: "fst (check_toxicity_ml self infer now content) = Inr v"
    and c: "confidence v = py_round (spec_confidence_fl ?s ?t) 3"
    using ml_success [where infer = infer and self = self and content = content and p = p
        and now = now, OF h]
    by simp
  have r: "rounded3 (spec_confidence_fl ?s ?t) (confidence v)"
    unfolding c by (rule rounded3_py_round)
  from ext dec p95 have "?s \<le> fl (1 / 10) \<or> fl (9 / 10) \<le> ?s \<longrightarrow> 85 / 100 \<le> confidence v"
    and "fl p = p \<and> (?s \<le> 1 / 10 \<or> 9 / 10 \<le> ?s) \<longrightarrow> 85 / 100 \<le> confidence v"
    and "p = fl (95 / 100) \<longrightarrow> 85 / 100 \<le> confidence v"
    unfolding c by blast+
  with v c r show ?thesis by blast
qed

theorem classifier_confidence_witness:
  "\<exists>v. fst (check_toxicity_ml (init hub_env True) (always_returns (fl (95 / 100))) [] ''hello'') = Inr v \<and>
       85 / 100 \<le> confidence v"
  using classifier_confidence [where infer = "always_returns (fl (95 / 100))" and self = "init hub_env True"
      and content = "''hello''" and p = "fl (95 / 100)" and now = "[]", OF hub_returns]
  by auto

lemma round_4996: "py_round (1249 / 2500) 3 = 1 / 2"
  by code_simp

text \<open>
  With probability 0.4996 and threshold 0.5 the verdict has \<open>toxicity_score = 0.5\<close> and
  \<open>threshold_used = 0.5\<close>, yet \<open>is_toxic = False\<close>: the score field is rounded, the
  decision is not. So claim C6, read on the fields of the verdict, fails.
\<close>

theorem decision_on_rounded_counterexample:
  "\<exists>v. fst (check_toxicity_ml (init hub_env True) (always_returns (4996 / 10000)) [] ''hello'') = Inr v \<and>
       toxicity_score v = 1 / 2 \<and> threshold_used v = Some (1 / 2) \<and> \<not> is_toxic v"
  by (simp add: hub_success round_4996)

text \<open>
  Claim C6 (amended). On the classifier path \<open>is_toxic\<close> is \<open>threshold_used \<le> s\<close> for the
  clamped, un-rounded score \<open>s\<close> (the boundary is toxic), and the score field is \<open>s\<close>
  rounded. On the pattern path \<open>is_toxic\<close> is \<open>0.5 < score\<close>, strictly, for the un-rounded
  score that \<^verbatim>\<open>_calculate_toxicity_score\<close> returns, and there the same holds of the
  rounded score field.
\<close>

theorem decision_rule:
  "(infer (clean_content_for_ml content) (case max_length self of None \<Rightarrow> 512 | Some n \<Rightarrow> n) = Inr p \<longrightarrow>
      (\<exists>v. fst (check_toxicity_ml self infer now content) = Inr v \<and>
           threshold_used v = Some (case optimal_threshold self of None \<Rightarrow> 1 / 2 | Some t \<Rightarrow> t) \<and>
           toxicity_score v = py_round (max 0 (min 1 p)) 3 \<and>
           is_toxic v = ((case optimal_threshold self of None \<Rightarrow> 1 / 2 | Some t \<Rightarrow> t) \<le> max 0 (min 1 p)))) \<and>
   (\<exists>v ms. find_toxic_patterns pattern_detector (clean_content content) = Inr ms \<and>
           calculate_toxicity_score pattern_detector ms = Inr (mean_score ms, categories v) \<and>
           fst (check_toxicity_rule_based pattern_detector now content) = Inr v \<and>
           toxicity_score v = py_round (mean_score ms) 3 \<and>
           is_toxic v = (1 / 2 < mean_score ms) \<and>
           is_toxic v = (1 / 2 < toxicity_score v))"
proof (intro conjI impI)
  assume h: "infer (clean_content_for_ml content) (case max_length self of None \<Rightarrow> 512 | Some n \<Rightarrow> n) = Inr p"
  show "\<exists>v. fst (check_toxicity_ml self infer now content) = Inr v \<and>
           threshold_used v = Some (case optimal_threshold self of None \<Rightarrow> 1 / 2 | Some t \<Rightarrow> t) \<and>
           toxicity_score v = py_round (max 0 (min 1 p)) 3 \<and>
           is_toxic v = ((case optimal_threshold self of None \<Rightarrow> 1 / 2 | Some t \<Rightarrow> t) \<le> max 0 (min 1 p))"
    using ml_success [where infer = infer and self = self and content = content and p = p
        and now = now, OF h]
    by simp
next
  obtain ms where ms: "find_toxic_patterns pattern_detector (clean_content content) = Inr ms"
    using find_pattern by blast
  have gap: "mean_score ms \<le> 1 / 2 \<or> 501 / 1000 \<le> mean_score ms"
    using mean_score_gap [of ms] by (cases "mean_score ms \<le> 1 / 2") simp_all
  have r: "(1 / 2 < py_round (mean_score ms) 3) = (1 / 2 < mean_score ms)"
    using gap by (rule py_round_half_iff)
  show "\<exists>v ms. find_toxic_patterns pattern_detector (clean_content content) = Inr ms \<and>
           calculate_toxicity_score pattern_detector ms = Inr (mean_score ms, categories v) \<and>
           fst (check_toxicity_rule_based pattern_detector now content) = Inr v \<and>
           toxicity_score v = py_round (mean_score ms) 3 \<and>
           is_toxic v = (1 / 2 < mean_score ms) \<and>
           is_toxic v = (1 / 2 < toxicity_score v)"
    using ms r by (simp add: rule_based_pattern [OF ms] calculate_spec)
qed

theorem decision_rule_witness:
  "\<exists>v. fst (check_toxicity_ml (init hub_env True) (always_returns (1 / 2)) [] ''hello'') = Inr v \<and>
       threshold_used v = Some (1 / 2) \<and> is_toxic v"
  using decision_rule [where infer = "always_returns (1 / 2)" and self = "init hub_env True"
      and content = "''hello''" and p = "1 / 2" and now = "[]"]
  by (auto simp: always_returns_def hub_fields)

lemma rule_based_result:
  "fst (check_toxicity_rule_based self now content) = Inr v \<Longrightarrow>
   \<exists>ms score cats. find_toxic_patterns self (clean_content content) = Inr ms \<and>
     calculate_toxicity_score self ms = Inr (score, cats) \<and>
     is_toxic v = (1 / 2 < score) \<and> toxicity_score v = py_round score 3 \<and>
     confidence v = py_round (min (9 / 10) (3 / 10 + of_nat (length ms) * (2 / 10))) 3 \<and>
     categories v = cats"
  by (auto simp: check_toxicity_rule_based_def Let_def split: sum.splits prod.splits)

lemma ml_result:
  "fst (check_toxicity_ml self infer now content) = Inr w \<Longrightarrow>
   (\<exists>exn. infer (clean_content_for_ml content) (case max_length self of None \<Rightarrow> 512 | Some n \<Rightarrow> n) = Inl exn
          \<and> fst (check_toxicity_rule_based self now content) = Inr w) \<or>
   (\<exists>p. infer (clean_content_for_ml content) (case max_length self of None \<Rightarrow> 512 | Some n \<Rightarrow> n) = Inr p)"
  by (cases "infer (clean_content_for_ml content) (case max_length self of None \<Rightarrow> 512 | Some n \<Rightarrow> n)")
     (auto simp: check_toxicity_ml_def Let_def split: prod.splits)

subsection \<open>Categories and rounding of the verdict\<close>

lemma set_add_distinct: "distinct cs \<Longrightarrow> distinct (set_add c cs)"
  by (simp add: set_add_def)

lemma score_categories_distinct:
  "score_categories cats weights i st = Inr st' \<Longrightarrow> distinct (snd st) \<Longrightarrow> distinct (snd st')"
  by (induction cats weights i st rule: score_categories.induct)
     (auto split: if_splits option.splits simp: set_add_distinct)

lemma score_matches_distinct:
  "score_matches cats weights ms st = Inr st' \<Longrightarrow> distinct (snd st) \<Longrightarrow> distinct (snd st')"
proof (induction cats weights ms st rule: score_matches.induct)
  case (1 cats weights st)
  then show ?case by simp
next
  case (2 cats weights m i ms st)
  from "2.prems"(1) obtain st1 where a: "score_categories cats weights i st = Inr st1"
    and b: "score_matches cats weights ms st1 = Inr st'"
    by (auto split: sum.splits)
  from a "2.prems"(2) have "distinct (snd st1)" by (rule score_categories_distinct)
  with "2.IH" [OF a b] show ?case .
qed

lemma calculate_sorted:
  "calculate_toxicity_score self ms = Inr (score, cats) \<Longrightarrow> sorted cats \<and> distinct cats"
proof -
  assume h: "calculate_toxicity_score self ms = Inr (score, cats)"
  show ?thesis
  proof (cases "cats = []")
    case True
    then show ?thesis by simp
  next
    case False
    with h obtain cs d ids where "score_matches cs (severity_weights self) ms ([], []) = Inr (d, ids)"
      and c: "cats = sort ids"
      by (auto simp: calculate_toxicity_score_def
          split: if_splits option.splits category_table.splits sum.splits prod.splits)
    then have "distinct ids" using score_matches_distinct [of cs "severity_weights self" ms "([], [])" "(d, ids)"]
      by simp
    then show ?thesis by (simp add: c)
  qed
qed

lemma cats_shape:
  "(let cats = []; cats = (if a then cats @ [x1] else cats); cats = (if b then cats @ [x2] else cats);
        cats = (if c then cats @ [x3] else cats); cats = (if d then cats @ [x4] else cats)
    in if cats = [] \<and> g then cats @ [y] else cats)
   \<in> set ([y] # subseqs [x1, x2, x3, x4])"
  by (cases a; cases b; cases c; cases d; cases g; simp add: Let_def)

lemma analyze_shape:
  "analyze_toxicity_categories_ml content score
   \<in> set ([''general_toxicity''] # subseqs [''profanity'', ''hate_speech'', ''harassment'', ''threat''])"
proof (cases "3 / 10 < score")
  case True
  then show ?thesis
    unfolding analyze_toxicity_categories_ml_def
    by (simp only: Let_def [of "lower content"] if_True) (rule cats_shape)
next
  case False
  then show ?thesis by (simp add: analyze_toxicity_categories_ml_def)
qed

lemma shape_distinct:
  "cs \<in> set ([''general_toxicity''] # subseqs [''profanity'', ''hate_speech'', ''harassment'', ''threat''])
   \<Longrightarrow> distinct cs"
  by (auto simp: Let_def)


lemma ml_fields:
  "fst (check_toxicity_ml self infer now content) = Inr w \<Longrightarrow>
   (\<exists>x. toxicity_score w = py_round x 3) \<and> (\<exists>x. confidence w = py_round x 3) \<and> distinct (categories w)"
proof -
  assume h: "fst (check_toxicity_ml self infer now content) = Inr w"
  from ml_result [OF h] show ?thesis
  proof (elim disjE exE conjE)
    fix exn
    assume "fst (check_toxicity_rule_based self now content) = Inr w"
    from rule_based_result [OF this] calculate_sorted show ?thesis by blast
  next
    fix p
    assume p: "infer (clean_content_for_ml content) (case max_length self of None \<Rightarrow> 512 | Some n \<Rightarrow> n) = Inr p"
    have "distinct (analyze_toxicity_categories_ml (clean_content_for_ml content) (max 0 (min 1 p)))"
      using analyze_shape by (rule shape_distinct)
    then show ?thesis
      using h ml_success [where infer = infer and self = self and content = content and p = p
        and now = now, OF p]
      by auto
  qed
qed

lemma analyze_hate_shit:
  "analyze_toxicity_categories_ml (clean_content_for_ml ''I hate this shit'') (19 / 20)
   = [''profanity'', ''hate_speech'']"
  by code_simp

lemma unsorted_pair: "\<not> sorted [''profanity'', ''hate_speech'']"
  by code_simp

text \<open>
  On the classifier path the categories are appended in the fixed order profanity,
  hate speech, harassment, threat, and never sorted: for \<^verbatim>\<open>I hate this shit\<close> with
  probability 0.95 the list is profanity, hate_speech, which is not ascending. So
  claim C3 as stated fails.
\<close>

theorem classifier_categories_unsorted_counterexample:
  "\<exists>v. fst (check_toxicity_ml (init hub_env True) (always_returns (95 / 100)) [] ''I hate this shit'') = Inr v \<and>
       categories v = [''profanity'', ''hate_speech''] \<and> \<not> sorted (categories v)"
  by (simp add: hub_success analyze_hate_shit unsorted_pair)

text \<open>
  Claim C3 (amended). On both paths the categories of a returned verdict have no
  duplicates. On the pattern path they are sorted in ascending lexicographic order. On
  the classifier path they are the single \<^verbatim>\<open>general_toxicity\<close> or a sublist, in this
  order, of profanity, hate_speech, harassment, threat.
\<close>

theorem categories_order:
  "(fst (check_toxicity_rule_based self now content) = Inr v \<longrightarrow>
      sorted (categories v) \<and> distinct (categories v)) \<and>
   (fst (check_toxicity_ml self infer now content) = Inr w \<longrightarrow> distinct (categories w)) \<and>
   (infer (clean_content_for_ml content) (case max_length self of None \<Rightarrow> 512 | Some n \<Rightarrow> n) = Inr p \<longrightarrow>
      (\<exists>u. fst (check_toxicity_ml self infer now content) = Inr u \<and>
           categories u \<in> set ([''general_toxicity''] #
                               subseqs [''profanity'', ''hate_speech'', ''harassment'', ''threat''])))"
proof (intro conjI impI)
  assume "fst (check_toxicity_rule_based self now content) = Inr v"
  from rule_based_result [OF this] calculate_sorted
  show "sorted (categories v)" and "distinct (categories v)" by blast+
next
  assume "fst (check_toxicity_ml self infer now content) = Inr w"
  from ml_fields [OF this] show "distinct (categories w)" by simp
next
  assume p: "infer (clean_content_for_ml content) (case max_length self of None \<Rightarrow> 512 | Some n \<Rightarrow> n) = Inr p"
  show "\<exists>u. fst (check_toxicity_ml self infer now content) = Inr u \<and>
           categories u \<in> set ([''general_toxicity''] #
                               subseqs [''profanity'', ''hate_speech'', ''harassment'', ''threat''])"
  proof -
    obtain u where u: "fst (check_toxicity_ml self infer now content) = Inr u"
      and c: "categories u = analyze_toxicity_categories_ml (clean_content_for_ml content) (max 0 (min 1 p))"
      using ml_success [where infer = infer and self = self and content = content and p = p
          and now = now, OF p]
      by simp
    have "categories u \<in> set ([''general_toxicity''] #
                               subseqs [''profanity'', ''hate_speech'', ''harassment'', ''threat''])"
      unfolding c by (rule analyze_shape)
    with u show ?thesis by blast
  qed
qed

theorem categories_order_witness:
  "(\<exists>v. fst (check_toxicity_rule_based pattern_detector [] ''idiot you'') = Inr v \<and>
        categories v = [''harassment''] \<and> sorted (categories v) \<and> distinct (categories v)) \<and>
   (\<exists>u. fst (check_toxicity_ml (init hub_env True) (always_returns (95 / 100)) [] ''I hate this shit'') = Inr u \<and>
        distinct (categories u) \<and>
        categories u \<in> set ([''general_toxicity''] #
                            subseqs [''profanity'', ''hate_speech'', ''harassment'', ''threat'']))"
proof -
  obtain v where v: "fst (check_toxicity_rule_based pattern_detector [] ''idiot you'') = Inr v"
    and cv: "categories v = [''harassment'']"
    by (simp add: rule_based_pattern [OF find_idiot_you] names_idiot_you)
  obtain w where w: "fst (check_toxicity_ml (init hub_env True) (always_returns (95 / 100)) [] ''I hate this shit'') = Inr w"
    by (simp add: hub_success)
  note t = categories_order [where self = pattern_detector and now = "[]" and content = "''idiot you''"
      and v = v]
  note t' = categories_order [where self = "init hub_env True" and now = "[]"
      and content = "''I hate this shit''" and infer = "always_returns (95 / 100)" and w = w
      and p = "95 / 100"]
  from t v have a: "sorted (categories v) \<and> distinct (categories v)" by blast
  from t' w have b: "distinct (categories w)" by blast
  from t' hub_returns [of "95 / 100" "''I hate this shit''"]
  have "\<exists>u. fst (check_toxicity_ml (init hub_env True) (always_returns (95 / 100)) [] ''I hate this shit'') = Inr u \<and>
        categories u \<in> set ([''general_toxicity''] #
                            subseqs [''profanity'', ''hate_speech'', ''harassment'', ''threat''])"
    by blast
  with w b have c: "\<exists>u. fst (check_toxicity_ml (init hub_env True) (always_returns (95 / 100)) [] ''I hate this shit'') = Inr u \<and>
        distinct (categories u) \<and>
        categories u \<in> set ([''general_toxicity''] #
                            subseqs [''profanity'', ''hate_speech'', ''harassment'', ''threat''])"
    by auto
  from v cv a c show ?thesis by blast
qed

text \<open>
  Claim C9. On both paths the score and the confidence of a returned verdict are the
  un-rounded values rounded to three decimals (\<open>rounded3\<close>: a multiple of 0.001, at most
  0.0005 away, the even multiple at a tie), while \<open>is_toxic\<close> compares the un-rounded
  score: with 0.5 on the pattern path, with the threshold on the classifier path. A
  valid input (a non-empty string) is given to the scorer of the detector's mode, and a
  verdict that leaves the classifier scorer is the pattern scorer's when the classifier
  raised. On the pattern path the un-rounded values are the score that
  \<^verbatim>\<open>_calculate_toxicity_score\<close> returns and \<open>min(0.9, 0.3 + 0.2 n)\<close> for \<open>n\<close> matches; on
  the classifier path they are the clamped probability and the confidence of lines
  203 to 212.
\<close>

theorem verdict_rounded:
  "(fst (check_toxicity_rule_based self now content) = Inr v \<longrightarrow>
      (\<exists>k::int. toxicity_score v = of_int k / 1000) \<and> (\<exists>k::int. confidence v = of_int k / 1000) \<and>
      (\<exists>ms score. find_toxic_patterns self (clean_content content) = Inr ms \<and>
         calculate_toxicity_score self ms = Inr (score, categories v) \<and>
         rounded3 score (toxicity_score v) \<and>
         rounded3 (min (9 / 10) (3 / 10 + of_nat (length ms) * (2 / 10))) (confidence v) \<and>
         is_toxic v = (1 / 2 < score))) \<and>
   (fst (check_toxicity_ml self infer now content) = Inr w \<longrightarrow>
      (\<exists>k::int. toxicity_score w = of_int k / 1000) \<and> (\<exists>k::int. confidence w = of_int k / 1000) \<and>
      ((\<exists>exn. infer (clean_content_for_ml content) (case max_length self of None \<Rightarrow> 512 | Some n \<Rightarrow> n) = Inl exn \<and>
              fst (check_toxicity_rule_based self now content) = Inr w) \<or>
       (\<exists>q. infer (clean_content_for_ml content) (case max_length self of None \<Rightarrow> 512 | Some n \<Rightarrow> n) = Inr q \<and>
            rounded3 (max 0 (min 1 q)) (toxicity_score w) \<and>
            rounded3 (ml_confidence (max 0 (min 1 q)) (case optimal_threshold self of None \<Rightarrow> 1 / 2 | Some t \<Rightarrow> t)) (confidence w) \<and>
            is_toxic w = ((case optimal_threshold self of None \<Rightarrow> 1 / 2 | Some t \<Rightarrow> t) \<le> max 0 (min 1 q))))) \<and>
   (is_str c \<and> str_of c \<noteq> [] \<longrightarrow>
      fst (check_toxicity self infer now c) =
        (if use_ml_model self then fst (check_toxicity_ml self infer now (str_of c))
         else fst (check_toxicity_rule_based self now (str_of c)))) \<and>
   (infer (clean_content_for_ml content) (case max_length self of None \<Rightarrow> 512 | Some n \<Rightarrow> n) = Inr p \<longrightarrow>
      (\<exists>u. fst (check_toxicity_ml self infer now content) = Inr u \<and>
           rounded3 (max 0 (min 1 p)) (toxicity_score u) \<and>
           rounded3 (ml_confidence (max 0 (min 1 p)) (case optimal_threshold self of None \<Rightarrow> 1 / 2 | Some t \<Rightarrow> t)) (confidence u) \<and>
           is_toxic u = ((case optimal_threshold self of None \<Rightarrow> 1 / 2 | Some t \<Rightarrow> t) \<le> max 0 (min 1 p))))"
proof (intro conjI impI)
  assume h: "fst (check_toxicity_rule_based self now content) = Inr v"
  from rule_based_result [OF h] obtain ms score where
    r: "find_toxic_patterns self (clean_content content) = Inr ms"
       "calculate_toxicity_score self ms = Inr (score, categories v)"
       "toxicity_score v = py_round score 3" "is_toxic v = (1 / 2 < score)"
       "confidence v = py_round (min (9 / 10) (3 / 10 + of_nat (length ms) * (2 / 10))) 3"
    by blast
  show "\<exists>k::int. toxicity_score v = of_int k / 1000" unfolding r(3) by (rule py_round_multiple)
  show "\<exists>k::int. confidence v = of_int k / 1000" unfolding r(5) by (rule py_round_multiple)
  have a: "rounded3 score (toxicity_score v)" unfolding r(3) by (rule rounded3_py_round)
  have b: "rounded3 (min (9 / 10) (3 / 10 + of_nat (length ms) * (2 / 10))) (confidence v)"
    unfolding r(5) by (rule rounded3_py_round)
  from r(1) r(2) a b r(4) show "\<exists>ms score. find_toxic_patterns self (clean_content content) = Inr ms \<and>
         calculate_toxicity_score self ms = Inr (score, categories v) \<and>
         rounded3 score (toxicity_score v) \<and>
         rounded3 (min (9 / 10) (3 / 10 + of_nat (length ms) * (2 / 10))) (confidence v) \<and>
         is_toxic v = (1 / 2 < score)" by blast
next
  assume h: "fst (check_toxicity_ml self infer now content) = Inr w"
  from ml_fields [OF h] obtain x y where x: "toxicity_score w = py_round x 3"
    and y: "confidence w = py_round y 3" by blast
  show "\<exists>k::int. toxicity_score w = of_int k / 1000" unfolding x by (rule py_round_multiple)
  show "\<exists>k::int. confidence w = of_int k / 1000" unfolding y by (rule py_round_multiple)
  from ml_result [OF h] show "(\<exists>exn. infer (clean_content_for_ml content) (case max_length self of None \<Rightarrow> 512 | Some n \<Rightarrow> n) = Inl exn \<and>
              fst (check_toxicity_rule_based self now content) = Inr w) \<or>
       (\<exists>q. infer (clean_content_for_ml content) (case max_length self of None \<Rightarrow> 512 | Some n \<Rightarrow> n) = Inr q \<and>
            rounded3 (max 0 (min 1 q)) (toxicity_score w) \<and>
            rounded3 (ml_confidence (max 0 (min 1 q)) (case optimal_threshold self of None \<Rightarrow> 1 / 2 | Some t \<Rightarrow> t)) (confidence w) \<and>
            is_toxic w = ((case optimal_threshold self of None \<Rightarrow> 1 / 2 | Some t \<Rightarrow> t) \<le> max 0 (min 1 q)))"
  proof (elim disjE exE conjE)
    fix exn
    assume "infer (clean_content_for_ml content) (case max_length self of None \<Rightarrow> 512 | Some n \<Rightarrow> n) = Inl exn"
      and "fst (check_toxicity_rule_based self now content) = Inr w"
    then show ?thesis by blast
  next
    fix q
    assume q: "infer (clean_content_for_ml content) (case max_length self of None \<Rightarrow> 512 | Some n \<Rightarrow> n) = Inr q"
    have ts: "toxicity_score w = py_round (max 0 (min 1 q)) 3"
      and cf: "confidence w = py_round (ml_confidence (max 0 (min 1 q)) (case optimal_threshold self of None \<Rightarrow> 1 / 2 | Some t \<Rightarrow> t)) 3"
      and it: "is_toxic w = ((case optimal_threshold self of None \<Rightarrow> 1 / 2 | Some t \<Rightarrow> t) \<le> max 0 (min 1 q))"
      using h ml_success [where infer = infer and self = self and content = content and p = q
          and now = now, OF q]
      by (auto simp: ml_confidence_spec)
    have a: "rounded3 (max 0 (min 1 q)) (toxicity_score w)" unfolding ts by (rule rounded3_py_round)
    have b: "rounded3 (ml_confidence (max 0 (min 1 q)) (case optimal_threshold self of None \<Rightarrow> 1 / 2 | Some t \<Rightarrow> t)) (confidence w)"
      unfolding cf by (rule rounded3_py_round)
    from q a b it show ?thesis by blast
  qed
next
  assume "is_str c \<and> str_of c \<noteq> []"
  then have "\<not> (\<not> truthy c \<or> \<not> is_str c)" by (cases c) simp_all
  then show "fst (check_toxicity self infer now c) =
        (if use_ml_model self then fst (check_toxicity_ml self infer now (str_of c))
         else fst (check_toxicity_rule_based self now (str_of c)))"
    by (simp add: check_toxicity_def)
next
  assume p: "infer (clean_content_for_ml content) (case max_length self of None \<Rightarrow> 512 | Some n \<Rightarrow> n) = Inr p"
  obtain u where u: "fst (check_toxicity_ml self infer now content) = Inr u"
    and ts: "toxicity_score u = py_round (max 0 (min 1 p)) 3"
    and cf: "confidence u = py_round (ml_confidence (max 0 (min 1 p)) (case optimal_threshold self of None \<Rightarrow> 1 / 2 | Some t \<Rightarrow> t)) 3"
    and it: "is_toxic u = ((case optimal_threshold self of None \<Rightarrow> 1 / 2 | Some t \<Rightarrow> t) \<le> max 0 (min 1 p))"
    using ml_success [where infer = infer and self = self and content = content and p = p
        and now = now, OF p]
    by (simp add: ml_confidence_spec)
  have a: "rounded3 (max 0 (min 1 p)) (toxicity_score u)" unfolding ts by (rule rounded3_py_round)
  have b: "rounded3 (ml_confidence (max 0 (min 1 p)) (case optimal_threshold self of None \<Rightarrow> 1 / 2 | Some t \<Rightarrow> t)) (confidence u)"
    unfolding cf by (rule rounded3_py_round)
  from u a b it show "\<exists>u. fst (check_toxicity_ml self infer now content) = Inr u \<and>
           rounded3 (max 0 (min 1 p)) (toxicity_score u) \<and>
           rounded3 (ml_confidence (max 0 (min 1 p)) (case optimal_threshold self of None \<Rightarrow> 1 / 2 | Some t \<Rightarrow> t)) (confidence u) \<and>
           is_toxic u = ((case optimal_threshold self of None \<Rightarrow> 1 / 2 | Some t \<Rightarrow> t) \<le> max 0 (min 1 p))" by blast
qed

theorem verdict_rounded_witness:
  "(\<exists>v. fst (check_toxicity_rule_based pattern_detector [] ''idiot you'') = Inr v \<and>
        toxicity_score v = 7 / 10 \<and> confidence v = 1 / 2 \<and> is_toxic v) \<and>
   (\<exists>u. fst (check_toxicity_ml (init hub_env True) (always_returns (4996 / 10000)) [] ''hello'') = Inr u \<and>
        toxicity_score u = 1 / 2 \<and> \<not> is_toxic u)"
proof -
  obtain v where v: "fst (check_toxicity_rule_based pattern_detector [] ''idiot you'') = Inr v"
    by (simp add: rule_based_pattern [OF find_idiot_you])
  note t = verdict_rounded [where self = pattern_detector and now = "[]" and content = "''idiot you''"
      and v = v]
  from t v obtain ms score where ms: "find_toxic_patterns pattern_detector (clean_content ''idiot you'') = Inr ms"
    and sc: "calculate_toxicity_score pattern_detector ms = Inr (score, categories v)"
    and a: "rounded3 score (toxicity_score v)"
    and b: "rounded3 (min (9 / 10) (3 / 10 + of_nat (length ms) * (2 / 10))) (confidence v)"
    and i: "is_toxic v = (1 / 2 < score)"
    by blast
  from ms have m: "ms = [([''idiot'', ''you''], 4)]" by (simp add: find_idiot_you)
  from sc have s: "score = 7 / 10" by (simp add: m calculate_spec mean_idiot_you)
  have r7: "rounded3 (7 / 10) (7 / 10)" and r5: "rounded3 (1 / 2) (1 / 2)"
    by (simp_all add: rounded3_def)
  from a have a': "rounded3 (7 / 10) (toxicity_score v)" by (simp add: s)
  from b have b': "rounded3 (1 / 2) (confidence v)" by (simp add: m)
  have "toxicity_score v = 7 / 10" using a' r7 by (rule rounded3_unique)
  moreover have "confidence v = 1 / 2" using b' r5 by (rule rounded3_unique)
  ultimately have first: "\<exists>v. fst (check_toxicity_rule_based pattern_detector [] ''idiot you'') = Inr v \<and>
        toxicity_score v = 7 / 10 \<and> confidence v = 1 / 2 \<and> is_toxic v"
    using v i s by simp
  note t' = verdict_rounded [where self = "init hub_env True" and now = "[]"
      and content = "''hello''" and infer = "always_returns (4996 / 10000)" and p = "4996 / 10000"]
  from t' hub_returns [of "4996 / 10000" "''hello''"]
  obtain u where u: "fst (check_toxicity_ml (init hub_env True) (always_returns (4996 / 10000)) [] ''hello'') = Inr u"
    and c: "rounded3 (max 0 (min 1 (4996 / 10000))) (toxicity_score u)"
    and j: "is_toxic u = ((case optimal_threshold (init hub_env True) of None \<Rightarrow> 1 / 2 | Some t \<Rightarrow> t)
                          \<le> max 0 (min 1 (4996 / 10000)))"
    by blast
  have r4: "rounded3 (1249 / 2500) (1 / 2)" by (simp add: rounded3_def)
  from c have c': "rounded3 (1249 / 2500) (toxicity_score u)" by simp
  have "toxicity_score u = 1 / 2" using c' r4 by (rule rounded3_unique)
  moreover from j have "\<not> is_toxic u" by (simp add: hub_fields)
  ultimately have second: "\<exists>u. fst (check_toxicity_ml (init hub_env True) (always_returns (4996 / 10000)) [] ''hello'') = Inr u \<and>
        toxicity_score u = 1 / 2 \<and> \<not> is_toxic u"
    using u by simp
  from first second show ?thesis by blast
qed

end
